theory Spec2Isabelle
  imports Main "HOL-Library.AList"
begin

section \<open>Rate limit tracker (services/rate-limit-tracker.ts)\<close>

text \<open>
  A \<open>Date\<close> is represented by its \<open>getTime()\<close> value, an integer number of milliseconds.
  The tracker's \<open>Map<string, InternalEntry>\<close> is an association list in insertion order:
  \<open>Map.set\<close> on a tracked key keeps the key's position and a new key goes to the end
  (\<open>AList.update\<close>), \<open>Map.delete\<close> is \<open>AList.delete\<close>, \<open>Map.get\<close> is \<open>map_of\<close>.
  \<open>Date.now()\<close> and \<open>new Date()\<close> read the clock; the reading is the argument \<open>now\<close>.
  \<open>getAvailableExecutable\<close> reads the clock once for each executable it tests, inside
  \<open>isLimited\<close>; the readings of one synchronous call are taken to be the same instant.
\<close>

record InternalEntry =
  resetsAt :: int
  recordedAt :: int

type_synonym limits = "(string \<times> InternalEntry) list"

definition markLimited :: "int \<Rightarrow> string \<Rightarrow> int \<Rightarrow> limits \<Rightarrow> limits" where
  "markLimited now executable t lim =
     (case map_of lim executable of
        Some existing \<Rightarrow>
          if resetsAt existing \<ge> t then lim
          else AList.update executable \<lparr>resetsAt = t, recordedAt = now\<rparr> lim
      | None \<Rightarrow> AList.update executable \<lparr>resetsAt = t, recordedAt = now\<rparr> lim)"

definition isLimited :: "int \<Rightarrow> string \<Rightarrow> limits \<Rightarrow> bool \<times> limits" where
  "isLimited now executable lim =
     (case map_of lim executable of
        None \<Rightarrow> (False, lim)
      | Some entry \<Rightarrow>
          if resetsAt entry \<le> now then (False, AList.delete executable lim)
          else (True, lim))"

fun getAvailableExecutable :: "int \<Rightarrow> string list \<Rightarrow> limits \<Rightarrow> string option \<times> limits" where
  "getAvailableExecutable now [] lim = (None, lim)"
| "getAvailableExecutable now (executable # rest) lim =
     (case isLimited now executable lim of
        (limited, lim') \<Rightarrow>
          if \<not> limited then (Some executable, lim')
          else getAvailableExecutable now rest lim')"






text \<open>The executables that \<open>isLimited\<close> reports as limited in a given tracker state.\<close>

definition limitedNow :: "int \<Rightarrow> limits \<Rightarrow> string \<Rightarrow> bool" where
  "limitedNow now lim executable = fst (isLimited now executable lim)"

text \<open>The reset time stored for an executable, if it is tracked.\<close>

definition resetOf :: "limits \<Rightarrow> string \<Rightarrow> int option" where
  "resetOf lim executable = map_option resetsAt (map_of lim executable)"


section \<open>Stuck-task diagnostics (server/routes/diagnostics.ts)\<close>

text \<open>
  \<open>getOrchestratorTaskMeta\<close> (types/task-meta.ts) and the session manager's
  \<open>getActiveSession\<close> are collaborators of \<open>collectStuckTasks\<close> and are taken as
  parameters. An optional field is an \<open>option\<close>; a number is an \<open>int\<close>.
\<close>

text \<open>
  Modelled from the spec: the members \<open>IN_PROGRESS\<close> and \<open>REVIEW\<close> of \<open>TaskStatus\<close>, an
  enumeration of the core package that is not among the sources; they are the status
  strings \<open>in_progress\<close> and \<open>review\<close> of the specification's task invariant.
\<close>

definition TaskStatus_IN_PROGRESS :: string where
  "TaskStatus_IN_PROGRESS = ''in_progress''"

definition TaskStatus_REVIEW :: string where
  "TaskStatus_REVIEW = ''review''"

record OrchestratorTaskMeta =
  assignedAgent :: "string option"
  meta_resumeCount :: "int option"
  meta_mergeStatus :: "string option"

record 'md Task =
  task_id :: string
  task_title :: "string option"
  task_status :: string
  task_metadata :: 'md

record StuckTaskDiagnostic =
  taskId :: string
  title :: string
  status :: string
  assignee :: "string option"
  resumeCount :: int
  mergeStatus :: "string option"

text \<open>\<open>task.title || task.id\<close>: an undefined or empty title falls back to the id.\<close>

definition title_or_id :: "'md Task \<Rightarrow> string" where
  "title_or_id task =
     (case task_title task of None \<Rightarrow> task_id task
      | Some t \<Rightarrow> if t = [] then task_id task else t)"

text \<open>The body of the \<open>for (const task of candidateTasks)\<close> loop, with \<open>stuckTasks\<close> passed along.\<close>

fun stuck_loop ::
  "('md \<Rightarrow> OrchestratorTaskMeta option) \<Rightarrow> (string \<Rightarrow> 'sess option) \<Rightarrow>
   'md Task list \<Rightarrow> StuckTaskDiagnostic list \<Rightarrow> StuckTaskDiagnostic list" where
  "stuck_loop getOrchestratorTaskMeta getActiveSession [] stuckTasks = stuckTasks"
| "stuck_loop getOrchestratorTaskMeta getActiveSession (task # rest) stuckTasks =
     (case getOrchestratorTaskMeta (task_metadata task) of
        None \<Rightarrow> stuck_loop getOrchestratorTaskMeta getActiveSession rest stuckTasks
      | Some meta \<Rightarrow>
          (let resumeCount = (case meta_resumeCount meta of None \<Rightarrow> 0 | Some n \<Rightarrow> n) in
           case assignedAgent meta of
             None \<Rightarrow> stuck_loop getOrchestratorTaskMeta getActiveSession rest stuckTasks
           | Some agent \<Rightarrow>
               if agent \<noteq> [] \<and> resumeCount \<ge> 2 then
                 (case getActiveSession agent of
                    None \<Rightarrow>
                      stuck_loop getOrchestratorTaskMeta getActiveSession rest
                        (stuckTasks @
                          [\<lparr>taskId = task_id task, title = title_or_id task,
                            status = task_status task, assignee = assignedAgent meta,
                            resumeCount = resumeCount, mergeStatus = meta_mergeStatus meta\<rparr>])
                  | Some activeSession \<Rightarrow>
                      stuck_loop getOrchestratorTaskMeta getActiveSession rest stuckTasks)
               else stuck_loop getOrchestratorTaskMeta getActiveSession rest stuckTasks))"

definition collectStuckTasks ::
  "('md \<Rightarrow> OrchestratorTaskMeta option) \<Rightarrow> (string \<Rightarrow> 'sess option) \<Rightarrow>
   'md Task list \<Rightarrow> StuckTaskDiagnostic list" where
  "collectStuckTasks getOrchestratorTaskMeta getActiveSession allTasks =
     (let candidateTasks =
        filter (\<lambda>t. task_status t = TaskStatus_IN_PROGRESS \<or> task_status t = TaskStatus_REVIEW)
          allTasks
      in stuck_loop getOrchestratorTaskMeta getActiveSession candidateTasks [])"

text \<open>
  The condition of the specification: the status is in progress or review, an agent is
  assigned, the resume count is at least 2, and that agent has no active session.
\<close>

definition stuck_by_spec ::
  "('md \<Rightarrow> OrchestratorTaskMeta option) \<Rightarrow> (string \<Rightarrow> 'sess option) \<Rightarrow> 'md Task \<Rightarrow> bool" where
  "stuck_by_spec getOrchestratorTaskMeta getActiveSession task =
     ((task_status task = ''in_progress'' \<or> task_status task = ''review'')
      \<and> (case getOrchestratorTaskMeta (task_metadata task) of
            None \<Rightarrow> False
          | Some meta \<Rightarrow>
              (case assignedAgent meta of
                 None \<Rightarrow> False
               | Some agent \<Rightarrow>
                   agent \<noteq> []
                   \<and> (case meta_resumeCount meta of None \<Rightarrow> False | Some n \<Rightarrow> n \<ge> 2)
                   \<and> getActiveSession agent = None)))"

text \<open>The entry of the diagnostics response that describes a task.\<close>

definition diagnostic_of ::
  "('md \<Rightarrow> OrchestratorTaskMeta option) \<Rightarrow> 'md Task \<Rightarrow> StuckTaskDiagnostic" where
  "diagnostic_of getOrchestratorTaskMeta task =
     (case getOrchestratorTaskMeta (task_metadata task) of
        None \<Rightarrow>
          \<lparr>taskId = task_id task, title = title_or_id task, status = task_status task,
           assignee = None, resumeCount = 0, mergeStatus = None\<rparr>
      | Some meta \<Rightarrow>
          \<lparr>taskId = task_id task, title = title_or_id task, status = task_status task,
           assignee = assignedAgent meta,
           resumeCount = (case meta_resumeCount meta of None \<Rightarrow> 0 | Some n \<Rightarrow> n),
           mergeStatus = meta_mergeStatus meta\<rparr>)"


section \<open>Rate limit guard of the session routes\<close>







section \<open>String operations used by the merge utilities\<close>

text \<open>
  Strings are lists of characters; the git output handled here is ASCII. \<open>trim\<close> strips the
  ASCII white space and line terminators, and the regular expression atom \<open>.\<close> matches
  every character except the line terminators.
\<close>

definition is_space :: "char \<Rightarrow> bool" where
  "is_space c = (c = CHR 0x09 \<or> c = CHR 0x0A \<or> c = CHR 0x0B \<or> c = CHR 0x0C \<or> c = CHR 0x0D
                 \<or> c = CHR 0x20)"

definition is_line_terminator :: "char \<Rightarrow> bool" where
  "is_line_terminator c = (c = CHR 0x0A \<or> c = CHR 0x0D)"

definition trim :: "string \<Rightarrow> string" where
  "trim s = rev (dropWhile is_space (rev (dropWhile is_space s)))"

definition starts_with :: "string \<Rightarrow> string \<Rightarrow> bool" where
  "starts_with s p = (take (length p) s = p)"

fun str_includes :: "string \<Rightarrow> string \<Rightarrow> bool" where
  "str_includes [] sub = (sub = [])"
| "str_includes (c # cs) sub = (starts_with (c # cs) sub \<or> str_includes cs sub)"

text \<open>\<open>(.+)\<close> at the head of a string: the longest run of characters without a line terminator.\<close>

definition dot_plus :: "string \<Rightarrow> string" where
  "dot_plus s = takeWhile (\<lambda>c. \<not> is_line_terminator c) s"

text \<open>A match of \<open>/lit(.+)/\<close> that starts at the head of the string: its group 1.\<close>

definition match_here :: "string \<Rightarrow> string \<Rightarrow> string option" where
  "match_here lit s =
     (if starts_with s lit then
        (let g = dot_plus (drop (length lit) s) in if g = [] then None else Some g)
      else None)"

text \<open>\<open>s.match(/lit(.+)/)\<close>: group 1 of the leftmost match.\<close>

fun match_first :: "string \<Rightarrow> string \<Rightarrow> string option" where
  "match_first lit [] = None"
| "match_first lit (c # cs) =
     (case match_here lit (c # cs) of Some g \<Rightarrow> Some g | None \<Rightarrow> match_first lit cs)"

text \<open>
  \<open>[...s.matchAll(/lit(.+)/g)].map(m => m[1])\<close>: the groups of the successive matches; the
  search goes on after the end of a match (\<open>skip\<close> counts the characters still inside it).
\<close>

fun match_all :: "nat \<Rightarrow> string \<Rightarrow> string \<Rightarrow> string list" where
  "match_all skip lit [] = []"
| "match_all skip lit (c # cs) =
     (case skip of
        Suc k \<Rightarrow> match_all k lit cs
      | 0 \<Rightarrow>
          (case match_here lit (c # cs) of
             Some g \<Rightarrow> g # match_all (length lit + length g - 1) lit cs
           | None \<Rightarrow> match_all 0 lit cs))"

text \<open>
  A match of \<open>/CONFLICT \([^)]+\): Merge conflict in (.+)/\<close> at the head of the string: the
  matched text.
\<close>

definition conflict_here :: "string \<Rightarrow> string option" where
  "conflict_here s =
     (if starts_with s ''CONFLICT ('' then
        (let inner = takeWhile (\<lambda>c. c \<noteq> CHR '')'') (drop 10 s);
             after = drop (10 + length inner) s
         in if inner \<noteq> [] \<and> starts_with after ''): Merge conflict in '' then
              (let g = dot_plus (drop 21 after) in
               if g = [] then None
               else Some (''CONFLICT ('' @ inner @ ''): Merge conflict in '' @ g))
            else None)
      else None)"

text \<open>\<open>output.match(/CONFLICT \([^)]+\): Merge conflict in (.+)/g)\<close>: the matched texts.\<close>

fun conflict_all :: "nat \<Rightarrow> string \<Rightarrow> string list" where
  "conflict_all skip [] = []"
| "conflict_all skip (c # cs) =
     (case skip of
        Suc k \<Rightarrow> conflict_all k cs
      | 0 \<Rightarrow>
          (case conflict_here (c # cs) of
             Some m \<Rightarrow> m # conflict_all (length m - 1) cs
           | None \<Rightarrow> conflict_all 0 cs))"

text \<open>\<open>m.match(/in (.+)$/)\<close>: group 1 of the leftmost match that reaches the end of the string.\<close>

fun match_in_to_end :: "string \<Rightarrow> string option" where
  "match_in_to_end [] = None"
| "match_in_to_end (c # cs) =
     (let g = drop 3 (c # cs) in
      if starts_with (c # cs) ''in '' \<and> g \<noteq> [] \<and> list_all (\<lambda>x. \<not> is_line_terminator x) g
      then Some g else match_in_to_end cs)"

definition parse_conflict_files :: "string \<Rightarrow> string list option" where
  "parse_conflict_files output =
     (let conflictMatch = conflict_all 0 output in
      if conflictMatch = [] then None
      else Some (filter (\<lambda>f. f \<noteq> [])
                  (map (\<lambda>m. case match_in_to_end m of Some g \<Rightarrow> g | None \<Rightarrow> []) conflictMatch)))"

text \<open>\<open>sourceBranch.replace(/[^a-zA-Z0-9-]/g, '-')\<close>.\<close>

definition safe_char :: "char \<Rightarrow> bool" where
  "safe_char c =
     (let n = (of_char c :: nat) in
      (97 \<le> n \<and> n \<le> 122) \<or> (65 \<le> n \<and> n \<le> 90) \<or> (48 \<le> n \<and> n \<le> 57) \<or> c = CHR ''-'')"

definition safeName_of :: "string \<Rightarrow> string" where
  "safeName_of sourceBranch = map (\<lambda>c. if safe_char c then c else CHR ''-'') sourceBranch"

text \<open>\<open>message.replace(/"/g, '\\"')\<close>.\<close>

definition escape_quotes :: "string \<Rightarrow> string" where
  "escape_quotes message =
     concat (map (\<lambda>c. if c = CHR 0x22 then [CHR 0x5C, CHR 0x22] else [c]) message)"

text \<open>The decimal text of a number, as a template literal prints \<open>Date.now()\<close>.\<close>

fun digits :: "nat \<Rightarrow> string" where
  "digits n =
     (if n < 10 then [''0123456789'' ! n]
      else digits (n div 10) @ [''0123456789'' ! (n mod 10)])"

declare digits.simps [simp del]

definition decimal :: "int \<Rightarrow> string" where
  "decimal i = (if i < 0 then CHR ''-'' # digits (nat (- i)) else digits (nat i))"


section \<open>Git commands and the command runner (git/merge.ts)\<close>

text \<open>
  Every command line the module builds is one constructor, named after its template;
  \<open>command_line\<close> gives the text passed to the shell.
\<close>

datatype git_cmd =
    RemoteGetUrl string
  | SymbolicRefOriginHead
  | RevParseVerify string
  | FetchOrigin
  | MergeBase string string
  | MergeTree string string string
  | WorktreeRemoveForce string
  | WorktreeAddDetach string string
  | MergeSquash string
  | Commit string
  | RevParseHead
  | MergeNoFF string string
  | PushOriginHead string
  | ResetHardHead
  | MergeAbort
  | SymbolicRefShortHead
  | MergeFFOnly string
  | FetchOriginRef string
  | BranchForce string string

fun command_line :: "git_cmd \<Rightarrow> string" where
  "command_line (RemoteGetUrl remoteName) = ''git remote get-url '' @ remoteName"
| "command_line SymbolicRefOriginHead = ''git symbolic-ref refs/remotes/origin/HEAD''"
| "command_line (RevParseVerify r) = ''git rev-parse --verify '' @ r"
| "command_line FetchOrigin = ''git fetch origin''"
| "command_line (MergeBase a b) = ''git merge-base '' @ a @ '' '' @ b"
| "command_line (MergeTree base a b) = ''git merge-tree '' @ base @ '' '' @ a @ '' '' @ b"
| "command_line (WorktreeRemoveForce dir) =
     ''git worktree remove --force '' @ [CHR 0x22] @ dir @ [CHR 0x22]"
| "command_line (WorktreeAddDetach dir startRef) =
     ''git worktree add --detach '' @ [CHR 0x22] @ dir @ [CHR 0x22] @ '' '' @ startRef"
| "command_line (MergeSquash b) = ''git merge --squash '' @ b"
| "command_line (Commit message) =
     ''git commit -m '' @ [CHR 0x22] @ escape_quotes message @ [CHR 0x22]"
| "command_line RevParseHead = ''git rev-parse HEAD''"
| "command_line (MergeNoFF message b) =
     ''git merge --no-ff -m '' @ [CHR 0x22] @ escape_quotes message @ [CHR 0x22] @ '' '' @ b"
| "command_line (PushOriginHead t) = ''git push origin HEAD:'' @ t"
| "command_line ResetHardHead = ''git reset --hard HEAD''"
| "command_line MergeAbort = ''git merge --abort''"
| "command_line SymbolicRefShortHead = ''git symbolic-ref --short HEAD''"
| "command_line (MergeFFOnly r) = ''git merge --ff-only '' @ r"
| "command_line (FetchOriginRef t) = ''git fetch origin '' @ t @ '':'' @ t"
| "command_line (BranchForce t h) = ''git branch -f '' @ t @ '' '' @ h"

text \<open>
  What a rejected \<open>execAsync\<close> promise (or any thrown \<open>Error\<close>) carries, as far as the module
  reads it; a resolved promise carries the standard output.
\<close>

record exec_error =
  err_stdout :: "string option"
  err_stderr :: "string option"
  err_message :: "string option"

datatype exec_result = ExecOk string | ExecFail exec_error

text \<open>
  The machine the module runs on: \<open>exec\<close> runs a git command in a working directory and
  may change the world in any way; \<open>fs.existsSync\<close>, \<open>Date.now\<close>, \<open>path.resolve\<close> and
  \<open>path.join\<close> are the other things the module asks of it.
\<close>

record 'w machine =
  exec :: "'w \<Rightarrow> string \<Rightarrow> git_cmd \<Rightarrow> exec_result \<times> 'w"
  existsSync :: "'w \<Rightarrow> string \<Rightarrow> bool"
  date_now :: "'w \<Rightarrow> int"
  path_resolve :: "string \<Rightarrow> string"
  path_join :: "string list \<Rightarrow> string"

text \<open>
  A log entry for each command that was run: where, what, whether through
  \<open>execGitSafe\<close>, and what came back.
\<close>

record call =
  cwd :: string
  cmd :: git_cmd
  via_safe :: bool
  result :: exec_result

text \<open>
  An asynchronous computation: from the world to a value or a thrown error (\<open>Inl\<close>), the
  new world, and the log of the commands it ran, in order.
\<close>

type_synonym ('w, 'a) prog = "'w \<Rightarrow> (exec_error + 'a) \<times> 'w \<times> call list"

definition ret :: "'a \<Rightarrow> ('w, 'a) prog" where
  "ret a = (\<lambda>w. (Inr a, w, []))"

definition throw :: "exec_error \<Rightarrow> ('w, 'a) prog" where
  "throw e = (\<lambda>w. (Inl e, w, []))"

definition bnd :: "('w, 'a) prog \<Rightarrow> ('a \<Rightarrow> ('w, 'b) prog) \<Rightarrow> ('w, 'b) prog" where
  "bnd m f =
     (\<lambda>w. case m w of
            (Inl e, w', l) \<Rightarrow> (Inl e, w', l)
          | (Inr a, w', l) \<Rightarrow> (case f a w' of (r, w'', l') \<Rightarrow> (r, w'', l @ l')))"

definition try_catch :: "('w, 'a) prog \<Rightarrow> (exec_error \<Rightarrow> ('w, 'a) prog) \<Rightarrow> ('w, 'a) prog" where
  "try_catch m h =
     (\<lambda>w. case m w of
            (Inl e, w', l) \<Rightarrow> (case h e w' of (r, w'', l') \<Rightarrow> (r, w'', l @ l'))
          | (Inr a, w', l) \<Rightarrow> (Inr a, w', l))"

text \<open>\<open>try { m } finally { fin }\<close>: an error thrown by \<open>fin\<close> replaces the outcome of \<open>m\<close>.\<close>

definition try_finally :: "('w, 'a) prog \<Rightarrow> ('w, unit) prog \<Rightarrow> ('w, 'a) prog" where
  "try_finally m fin =
     (\<lambda>w. case m w of
            (r, w', l) \<Rightarrow>
              (case fin w' of
                 (Inl e, w'', l') \<Rightarrow> (Inl e, w'', l @ l')
               | (Inr u, w'', l') \<Rightarrow> (r, w'', l @ l')))"

definition ask :: "('w \<Rightarrow> 'a) \<Rightarrow> ('w, 'a) prog" where
  "ask f = (\<lambda>w. (Inr (f w), w, []))"

definition thrown_or_stdout :: "exec_result \<Rightarrow> exec_error + string" where
  "thrown_or_stdout r = (case r of ExecOk out \<Rightarrow> Inr out | ExecFail e \<Rightarrow> Inl e)"

definition run_git :: "'w machine \<Rightarrow> bool \<Rightarrow> git_cmd \<Rightarrow> string \<Rightarrow> ('w, string) prog" where
  "run_git M safe command dir =
     (\<lambda>w. case exec M w dir command of
            (r, w') \<Rightarrow>
              (thrown_or_stdout r, w',
               [\<lparr>cwd = dir, cmd = command, via_safe = safe, result = r\<rparr>]))"

definition execAsync :: "'w machine \<Rightarrow> git_cmd \<Rightarrow> string \<Rightarrow> ('w, string) prog" where
  "execAsync M command dir = run_git M False command dir"

definition safety_error :: "git_cmd \<Rightarrow> exec_error" where
  "safety_error command =
     \<lparr>err_stdout = None, err_stderr = None,
      err_message = Some (''SAFETY: Refusing to run '' @ [CHR 0x22] @ command_line command
                          @ [CHR 0x22] @ '' in main repo. Use a worktree.'')\<rparr>"

definition execGitSafe ::
  "'w machine \<Rightarrow> git_cmd \<Rightarrow> string \<Rightarrow> string \<Rightarrow> ('w, string) prog" where
  "execGitSafe M command worktreePath workspaceRoot =
     (if path_resolve M worktreePath = path_resolve M workspaceRoot
      then throw (safety_error command)
      else run_git M True command worktreePath)"

definition hasRemote :: "'w machine \<Rightarrow> string \<Rightarrow> string \<Rightarrow> ('w, bool) prog" where
  "hasRemote M workspaceRoot remoteName =
     try_catch
       (bnd (execAsync M (RemoteGetUrl remoteName) workspaceRoot) (\<lambda>_. ret True))
       (\<lambda>_. ret False)"

text \<open>
  The \<open>for (const name of ['main', 'master'])\<close> loop of \<open>detectTargetBranch\<close> and its final
  \<open>return 'main'\<close>.
\<close>

fun detect_local :: "'w machine \<Rightarrow> string \<Rightarrow> string list \<Rightarrow> ('w, string) prog" where
  "detect_local M workspaceRoot [] = ret ''main''"
| "detect_local M workspaceRoot (name # names) =
     try_catch
       (bnd (execAsync M (RevParseVerify (''refs/heads/'' @ name)) workspaceRoot)
          (\<lambda>_. ret name))
       (\<lambda>_. detect_local M workspaceRoot names)"

text \<open>
  Each \<open>try { ...; return x } catch { }\<close> block yields \<open>Some x\<close> when it returns from the
  function and \<open>None\<close> when control falls through to the next block.
\<close>

definition detectTargetBranch :: "'w machine \<Rightarrow> string \<Rightarrow> ('w, string) prog" where
  "detectTargetBranch M workspaceRoot =
     bnd (hasRemote M workspaceRoot ''origin'') (\<lambda>remoteExists.
     bnd (if remoteExists then
            bnd (try_catch
                   (bnd (execAsync M SymbolicRefOriginHead workspaceRoot)
                      (\<lambda>stdout. ret (match_first ''refs/remotes/origin/'' (trim stdout))))
                   (\<lambda>_. ret None)) (\<lambda>symref.
            case symref of
              Some branch \<Rightarrow> ret (Some branch)
            | None \<Rightarrow>
                bnd (try_catch
                       (bnd (execAsync M (RevParseVerify ''origin/main'') workspaceRoot)
                          (\<lambda>_. ret (Some ''main'')))
                       (\<lambda>_. ret None)) (\<lambda>originMain.
                case originMain of
                  Some branch \<Rightarrow> ret (Some branch)
                | None \<Rightarrow>
                    try_catch
                      (bnd (execAsync M (RevParseVerify ''origin/master'') workspaceRoot)
                         (\<lambda>_. ret (Some ''master'')))
                      (\<lambda>_. ret None)))
          else ret None) (\<lambda>fromRemote.
     case fromRemote of
       Some branch \<Rightarrow> ret branch
     | None \<Rightarrow> detect_local M workspaceRoot [''main'', ''master'']))"


section \<open>mergeBranch and the local branch sync (git/merge.ts)\<close>

datatype merge_strategy = Squash | Merge

record MergeBranchOptions =
  workspaceRoot :: string
  sourceBranch :: string
  targetBranch :: "string option"
  mergeStrategy :: "merge_strategy option"
  autoPush :: "bool option"
  commitMessage :: "string option"
  preflight :: "bool option"
  syncLocal :: "bool option"
  localOnly :: "bool option"

record MergeBranchResult =
  success :: bool
  commitHash :: "string option"
  hasConflict :: bool
  error :: "string option"
  conflictFiles :: "string list option"

definition syncLocalBranch :: "'w machine \<Rightarrow> string \<Rightarrow> string \<Rightarrow> ('w, unit) prog" where
  "syncLocalBranch M root target =
     try_catch
       (bnd (try_catch
               (bnd (execAsync M SymbolicRefShortHead root) (\<lambda>stdout. ret (Some (trim stdout))))
               (\<lambda>_. ret None)) (\<lambda>currentBranch.
        if currentBranch = None \<or> currentBranch = Some [] then ret ()
        else if currentBranch = Some target then
          bnd (execAsync M (MergeFFOnly (''origin/'' @ target)) root) (\<lambda>_. ret ())
        else
          bnd (execAsync M (FetchOriginRef target) root) (\<lambda>_. ret ())))
       (\<lambda>_. ret ())"

definition syncLocalBranchFromCommit ::
  "'w machine \<Rightarrow> string \<Rightarrow> string \<Rightarrow> string \<Rightarrow> ('w, unit) prog" where
  "syncLocalBranchFromCommit M root target hash =
     try_catch
       (bnd (try_catch
               (bnd (execAsync M SymbolicRefShortHead root) (\<lambda>stdout. ret (Some (trim stdout))))
               (\<lambda>_. ret None)) (\<lambda>currentBranch.
        if currentBranch = Some target then
          bnd (execAsync M (MergeFFOnly hash) root) (\<lambda>_. ret ())
        else
          bnd (execAsync M (BranchForce target hash) root) (\<lambda>_. ret ())))
       (\<lambda>_. ret ())"

text \<open>
  \<open>mergeBranch\<close> is one function in the source; here each of its numbered steps is a
  definition and \<open>mergeBranch\<close> chains them in the source's order.
\<close>

text \<open>The destructured options with their defaults, \<open>localOnly\<close>, \<open>targetBranch\<close>, \<open>message\<close>.\<close>

definition resolve_localOnly :: "'w machine \<Rightarrow> MergeBranchOptions \<Rightarrow> ('w, bool) prog" where
  "resolve_localOnly M options =
     (case localOnly options of
        Some b \<Rightarrow> ret b
      | None \<Rightarrow> bnd (hasRemote M (workspaceRoot options) ''origin'') (\<lambda>r. ret (\<not> r)))"

definition resolve_targetBranch :: "'w machine \<Rightarrow> MergeBranchOptions \<Rightarrow> ('w, string) prog" where
  "resolve_targetBranch M options =
     (case targetBranch options of
        Some t \<Rightarrow> ret t
      | None \<Rightarrow> detectTargetBranch M (workspaceRoot options))"

definition strategy_of :: "MergeBranchOptions \<Rightarrow> merge_strategy" where
  "strategy_of options = (case mergeStrategy options of None \<Rightarrow> Squash | Some st \<Rightarrow> st)"

definition flag_of :: "bool option \<Rightarrow> bool" where
  "flag_of b = (case b of None \<Rightarrow> True | Some v \<Rightarrow> v)"

definition message_of :: "MergeBranchOptions \<Rightarrow> string \<Rightarrow> string" where
  "message_of options target =
     (case commitMessage options of
        Some m \<Rightarrow> m
      | None \<Rightarrow>
          (if strategy_of options = Squash
           then ''Squash merge '' @ sourceBranch options @ '' into '' @ target
           else ''Merge branch '' @ [CHR 0x27] @ sourceBranch options @ [CHR 0x27]))"

text \<open>Step 1: fetch, unless local-only.\<close>

definition fetch_step :: "'w machine \<Rightarrow> string \<Rightarrow> bool \<Rightarrow> ('w, unit) prog" where
  "fetch_step M root isLocalOnly =
     (if \<not> isLocalOnly then bnd (execAsync M FetchOrigin root) (\<lambda>_. ret ()) else ret ())"

text \<open>
  Step 2: the pre-flight check. \<open>Some r\<close> is the early \<open>return r\<close>; \<open>None\<close> goes on to step 3.
  \<open>dryRun\<close> is the resolved value or, through \<open>.catch(e => e)\<close>, the error; either may have
  a \<open>stdout\<close>.
\<close>

definition preflight_result :: "string \<Rightarrow> MergeBranchResult" where
  "preflight_result dryRunOutput =
     (let files = match_all 0 ''+++ b/'' dryRunOutput in
      \<lparr>success = False, commitHash = None, hasConflict = True,
       error = Some ''Pre-flight: merge conflicts detected'',
       conflictFiles = (if length files > 0 then Some files else None)\<rparr>)"

definition preflight_step ::
  "'w machine \<Rightarrow> string \<Rightarrow> string \<Rightarrow> string \<Rightarrow> bool \<Rightarrow> bool \<Rightarrow>
   ('w, MergeBranchResult option) prog" where
  "preflight_step M root source target isLocalOnly doPreflight =
     (if doPreflight then
        (let preflightRef = (if isLocalOnly then target else ''origin/'' @ target) in
         try_catch
           (bnd (execAsync M (MergeBase preflightRef source) root) (\<lambda>mergeBase.
            bnd (try_catch
                   (bnd (execAsync M (MergeTree (trim mergeBase) preflightRef source) root)
                      (\<lambda>stdout. ret (Some stdout)))
                   (\<lambda>e. ret (err_stdout e))) (\<lambda>dryRun.
            case dryRun of
              Some out \<Rightarrow>
                if str_includes out ''<<<<<<<'' then ret (Some (preflight_result out))
                else ret None
            | None \<Rightarrow> ret None)))
           (\<lambda>_. ret None))
      else ret None)"

text \<open>Step 3: the name of the temporary worktree, the leftover cleanup and \<open>worktree add\<close>.\<close>

definition mergeDir_of :: "'w machine \<Rightarrow> string \<Rightarrow> string \<Rightarrow> int \<Rightarrow> string" where
  "mergeDir_of M root source now =
     path_join M [root, ''.stoneforge/.worktrees'',
                  ''_merge-'' @ safeName_of source @ ''-'' @ decimal now]"

definition worktree_step ::
  "'w machine \<Rightarrow> string \<Rightarrow> string \<Rightarrow> string \<Rightarrow> bool \<Rightarrow> ('w, string) prog" where
  "worktree_step M root source target isLocalOnly =
     bnd (ask (date_now M)) (\<lambda>now.
     let mergeDir = mergeDir_of M root source now in
     bnd (ask (\<lambda>w. existsSync M w mergeDir)) (\<lambda>leftover.
     bnd (if leftover then bnd (execAsync M (WorktreeRemoveForce mergeDir) root) (\<lambda>_. ret ())
          else ret ()) (\<lambda>_.
     let worktreeStartRef = (if isLocalOnly then target else ''origin/'' @ target) in
     bnd (execAsync M (WorktreeAddDetach mergeDir worktreeStartRef) root) (\<lambda>_.
     ret mergeDir))))"

text \<open>Steps 4 to 7: the \<open>try\<close> block, its \<open>catch\<close> and its \<open>finally\<close>.\<close>

definition merge_try ::
  "'w machine \<Rightarrow> string \<Rightarrow> string \<Rightarrow> string \<Rightarrow> merge_strategy \<Rightarrow> bool \<Rightarrow> bool \<Rightarrow>
   string \<Rightarrow> string \<Rightarrow> ('w, MergeBranchResult) prog" where
  "merge_try M root source target strategy doPush isLocalOnly message mergeDir =
     bnd (case strategy of
            Squash \<Rightarrow>
              bnd (execGitSafe M (MergeSquash source) mergeDir root) (\<lambda>_.
              bnd (execGitSafe M (Commit message) mergeDir root) (\<lambda>_.
              bnd (execGitSafe M RevParseHead mergeDir root) (\<lambda>hash.
              ret (trim hash))))
          | Merge \<Rightarrow>
              bnd (execGitSafe M (MergeNoFF message source) mergeDir root) (\<lambda>_.
              bnd (execGitSafe M RevParseHead mergeDir root) (\<lambda>hash.
              ret (trim hash)))) (\<lambda>hash.
     bnd (if doPush \<and> \<not> isLocalOnly then
            try_catch
              (bnd (execGitSafe M (PushOriginHead target) mergeDir root) (\<lambda>_. ret ()))
              (\<lambda>pushError. ret ())
          else ret ()) (\<lambda>_.
     ret \<lparr>success = True, commitHash = Some hash, hasConflict = False, error = None,
          conflictFiles = None\<rparr>))"

definition output_of :: "exec_error \<Rightarrow> string" where
  "output_of execError =
     (case err_stdout execError of None \<Rightarrow> [] | Some x \<Rightarrow> x)
     @ (case err_stderr execError of None \<Rightarrow> [] | Some x \<Rightarrow> x)
     @ (case err_message execError of None \<Rightarrow> [] | Some x \<Rightarrow> x)"

definition merge_catch ::
  "'w machine \<Rightarrow> string \<Rightarrow> merge_strategy \<Rightarrow> string \<Rightarrow> exec_error \<Rightarrow>
   ('w, MergeBranchResult) prog" where
  "merge_catch M root strategy mergeDir execError =
     (let output = output_of execError in
      if str_includes output ''CONFLICT'' \<or> str_includes output ''Automatic merge failed'' then
        bnd (try_catch
               (bnd (if strategy = Squash then execGitSafe M ResetHardHead mergeDir root
                     else execGitSafe M MergeAbort mergeDir root) (\<lambda>_. ret ()))
               (\<lambda>_. ret ())) (\<lambda>_.
        ret \<lparr>success = False, commitHash = None, hasConflict = True,
             error = Some ''Merge conflict detected'',
             conflictFiles = parse_conflict_files output\<rparr>)
      else
        ret \<lparr>success = False, commitHash = None, hasConflict = False,
             error = Some (if output \<noteq> [] then output else ''Merge failed''),
             conflictFiles = None\<rparr>)"

definition remove_worktree :: "'w machine \<Rightarrow> string \<Rightarrow> string \<Rightarrow> ('w, unit) prog" where
  "remove_worktree M root mergeDir =
     try_catch
       (bnd (execAsync M (WorktreeRemoveForce mergeDir) root) (\<lambda>_. ret ()))
       (\<lambda>_. ret ())"

definition merge_step ::
  "'w machine \<Rightarrow> string \<Rightarrow> string \<Rightarrow> string \<Rightarrow> merge_strategy \<Rightarrow> bool \<Rightarrow> bool \<Rightarrow>
   string \<Rightarrow> string \<Rightarrow> ('w, MergeBranchResult) prog" where
  "merge_step M root source target strategy doPush isLocalOnly message mergeDir =
     try_finally
       (try_catch
          (merge_try M root source target strategy doPush isLocalOnly message mergeDir)
          (merge_catch M root strategy mergeDir))
       (remove_worktree M root mergeDir)"

text \<open>Step 8: the sync of the local target branch.\<close>

definition sync_step ::
  "'w machine \<Rightarrow> string \<Rightarrow> string \<Rightarrow> bool \<Rightarrow> bool \<Rightarrow> bool \<Rightarrow> MergeBranchResult \<Rightarrow>
   ('w, unit) prog" where
  "sync_step M root target doSync isLocalOnly doPush mergeResult =
     (if success mergeResult \<and> doSync then
        (if isLocalOnly then
           (case commitHash mergeResult of
              Some hash \<Rightarrow> syncLocalBranchFromCommit M root target hash
            | None \<Rightarrow> ret ())
         else if doPush then syncLocalBranch M root target
         else ret ())
      else ret ())"

text \<open>
  Steps 1 to 7, up to the assignment of \<open>mergeResult\<close>, or the early \<open>return\<close> of step 2
  (then the flag is true).
\<close>

definition merge_steps_1_to_7 ::
  "'w machine \<Rightarrow> MergeBranchOptions \<Rightarrow> bool \<Rightarrow> string \<Rightarrow>
   ('w, bool \<times> MergeBranchResult) prog" where
  "merge_steps_1_to_7 M options isLocalOnly target =
     (let root = workspaceRoot options; source = sourceBranch options in
      bnd (fetch_step M root isLocalOnly) (\<lambda>_.
      bnd (preflight_step M root source target isLocalOnly (flag_of (preflight options)))
        (\<lambda>early.
      case early of
        Some r \<Rightarrow> ret (True, r)
      | None \<Rightarrow>
          bnd (worktree_step M root source target isLocalOnly) (\<lambda>mergeDir.
          bnd (merge_step M root source target (strategy_of options)
                 (flag_of (autoPush options)) isLocalOnly (message_of options target) mergeDir)
            (\<lambda>mergeResult. ret (False, mergeResult))))))"

definition mergeBranch :: "'w machine \<Rightarrow> MergeBranchOptions \<Rightarrow> ('w, MergeBranchResult) prog" where
  "mergeBranch M options =
     bnd (resolve_localOnly M options) (\<lambda>isLocalOnly.
     bnd (resolve_targetBranch M options) (\<lambda>target.
     bnd (merge_steps_1_to_7 M options isLocalOnly target) (\<lambda>(returned, mergeResult).
     if returned then ret mergeResult
     else
       bnd (sync_step M (workspaceRoot options) target (flag_of (syncLocal options))
              isLocalOnly (flag_of (autoPush options)) mergeResult) (\<lambda>_.
       ret mergeResult))))"

text \<open>
  \<open>mergeBranch\<close> cut off before step 8: the values of \<open>localOnly\<close> and \<open>targetBranch\<close>,
  whether step 2 returned early, and \<open>mergeResult\<close>.
\<close>

definition mergeBranch_before_sync ::
  "'w machine \<Rightarrow> MergeBranchOptions \<Rightarrow>
   ('w, bool \<times> string \<times> bool \<times> MergeBranchResult) prog" where
  "mergeBranch_before_sync M options =
     bnd (resolve_localOnly M options) (\<lambda>isLocalOnly.
     bnd (resolve_targetBranch M options) (\<lambda>target.
     bnd (merge_steps_1_to_7 M options isLocalOnly target) (\<lambda>(returned, mergeResult).
     ret (isLocalOnly, target, returned, mergeResult))))"

text \<open>The outcome of a computation, the commands it ran, and the world it leaves.\<close>

definition outcome_of :: "('w, 'a) prog \<Rightarrow> 'w \<Rightarrow> exec_error + 'a" where
  "outcome_of m w = fst (m w)"

definition calls_of :: "('w, 'a) prog \<Rightarrow> 'w \<Rightarrow> call list" where
  "calls_of m w = snd (snd (m w))"

definition world_after :: "('w, 'a) prog \<Rightarrow> 'w \<Rightarrow> 'w" where
  "world_after m w = fst (snd (m w))"


section \<open>The order of target branch detection, as specified\<close>

definition succeeded :: "exec_result \<Rightarrow> bool" where
  "succeeded r = (case r of ExecOk out \<Rightarrow> True | ExecFail e \<Rightarrow> False)"

text \<open>The branch named by the remote symbolic ref, when that step succeeds.\<close>

definition symref_branch :: "exec_result \<Rightarrow> string option" where
  "symref_branch r =
     (case r of
        ExecOk out \<Rightarrow> match_first ''refs/remotes/origin/'' (trim out)
      | ExecFail e \<Rightarrow> None)"

text \<open>
  The fallback order in the words of the specification: the configured base branch, the
  remote symbolic ref, \<open>origin/main\<close>, \<open>origin/master\<close>, local \<open>main\<close>, local \<open>master\<close>, and
  finally the literal \<open>main\<close>; the first step that succeeds decides. \<open>probe\<close> tells what
  each query answers in the repository.
\<close>

definition detect_by_spec :: "string option \<Rightarrow> (git_cmd \<Rightarrow> exec_result) \<Rightarrow> string" where
  "detect_by_spec baseBranch probe =
     (case baseBranch of
        Some b \<Rightarrow> b
      | None \<Rightarrow>
          (case symref_branch (probe SymbolicRefOriginHead) of
             Some b \<Rightarrow> b
           | None \<Rightarrow>
               if succeeded (probe (RevParseVerify ''origin/main'')) then ''main''
               else if succeeded (probe (RevParseVerify ''origin/master'')) then ''master''
               else if succeeded (probe (RevParseVerify ''refs/heads/main'')) then ''main''
               else if succeeded (probe (RevParseVerify ''refs/heads/master'')) then ''master''
               else ''main''))"

text \<open>The read-only queries of the detection, and what they answer in a world.\<close>

definition is_probe :: "git_cmd \<Rightarrow> bool" where
  "is_probe c =
     (case c of
        RemoteGetUrl n \<Rightarrow> True
      | SymbolicRefOriginHead \<Rightarrow> True
      | RevParseVerify r \<Rightarrow> True
      | _ \<Rightarrow> False)"

definition probe_answers :: "'w machine \<Rightarrow> 'w \<Rightarrow> string \<Rightarrow> git_cmd \<Rightarrow> exec_result" where
  "probe_answers M w root c = fst (exec M w root c)"

text \<open>A repository in which the three queries about \<open>origin\<close> count as failed.\<close>

definition without_origin :: "(git_cmd \<Rightarrow> exec_result) \<Rightarrow> git_cmd \<Rightarrow> exec_result" where
  "without_origin probe c =
     (if c = SymbolicRefOriginHead \<or> c = RevParseVerify ''origin/main''
         \<or> c = RevParseVerify ''origin/master''
      then ExecFail \<lparr>err_stdout = None, err_stderr = None, err_message = None\<rparr>
      else probe c)"

text \<open>
  What the detection can see: without an \<open>origin\<close> remote the three queries about \<open>origin\<close>
  are not made.
\<close>

definition visible_answers :: "'w machine \<Rightarrow> 'w \<Rightarrow> string \<Rightarrow> git_cmd \<Rightarrow> exec_result" where
  "visible_answers M w root =
     (if succeeded (probe_answers M w root (RemoteGetUrl ''origin''))
      then probe_answers M w root
      else without_origin (probe_answers M w root))"


section \<open>A scripted machine for concrete runs\<close>

text \<open>
  A machine whose commands answer from a fixed table and leave the world (a unit) as it is;
  no leftover worktree exists, the clock reads 7, paths resolve to themselves and are
  joined with a slash.
\<close>

definition scripted :: "(git_cmd \<Rightarrow> exec_result) \<Rightarrow> unit machine" where
  "scripted answer =
     \<lparr>exec = (\<lambda>w dir c. (answer c, w)),
      existsSync = (\<lambda>w p. False),
      date_now = (\<lambda>w. 7),
      path_resolve = (\<lambda>p. p),
      path_join = (\<lambda>ps. foldr (\<lambda>a b. if b = [] then a else a @ ''/'' @ b) ps [])\<rparr>"

definition failure :: "string \<Rightarrow> exec_result" where
  "failure msg = ExecFail \<lparr>err_stdout = Some [], err_stderr = Some msg, err_message = Some msg\<rparr>"

text \<open>Two repositories: one whose \<open>origin/HEAD\<close> names \<open>main\<close>, one without an \<open>origin\<close> remote.\<close>

definition repo_with_origin_head :: "git_cmd \<Rightarrow> exec_result" where
  "repo_with_origin_head c =
     (if c = SymbolicRefOriginHead then ExecOk ''refs/remotes/origin/main'' else ExecOk [])"

definition repo_without_origin :: "git_cmd \<Rightarrow> exec_result" where
  "repo_without_origin c =
     (if c = RevParseVerify ''origin/main'' \<or> c = RevParseVerify ''refs/heads/master''
      then ExecOk [] else failure ''fatal'')"


section \<open>Postconditions of computations\<close>

text \<open>
  \<open>post m Q\<close>: whatever the world, the outcome of \<open>m\<close> and the commands it ran satisfy \<open>Q\<close>.
  \<open>seq\<close>, \<open>handled\<close> and \<open>finished\<close> combine the postconditions of the parts of a
  sequence, of a \<open>try/catch\<close> and of a \<open>try/finally\<close>.
\<close>

definition post :: "('w, 'a) prog \<Rightarrow> ((exec_error + 'a) \<Rightarrow> call list \<Rightarrow> bool) \<Rightarrow> bool" where
  "post m Q = (\<forall>w. Q (outcome_of m w) (calls_of m w))"

definition seq ::
  "((exec_error + 'a) \<Rightarrow> call list \<Rightarrow> bool) \<Rightarrow> ('a \<Rightarrow> (exec_error + 'b) \<Rightarrow> call list \<Rightarrow> bool) \<Rightarrow>
   (exec_error + 'b) \<Rightarrow> call list \<Rightarrow> bool" where
  "seq Q1 Q2 r l =
     ((\<exists>e. r = Inl e \<and> Q1 (Inl e) l)
      \<or> (\<exists>a l1 l2. l = l1 @ l2 \<and> Q1 (Inr a) l1 \<and> Q2 a r l2))"

definition handled ::
  "((exec_error + 'a) \<Rightarrow> call list \<Rightarrow> bool) \<Rightarrow> (exec_error \<Rightarrow> (exec_error + 'a) \<Rightarrow> call list \<Rightarrow> bool) \<Rightarrow>
   (exec_error + 'a) \<Rightarrow> call list \<Rightarrow> bool" where
  "handled Q1 Q2 r l =
     ((\<exists>a. r = Inr a \<and> Q1 (Inr a) l)
      \<or> (\<exists>e l1 l2. l = l1 @ l2 \<and> Q1 (Inl e) l1 \<and> Q2 e r l2))"

definition finished ::
  "((exec_error + 'a) \<Rightarrow> call list \<Rightarrow> bool) \<Rightarrow> ((exec_error + unit) \<Rightarrow> call list \<Rightarrow> bool) \<Rightarrow>
   (exec_error + 'a) \<Rightarrow> call list \<Rightarrow> bool" where
  "finished Q1 Q2 r l =
     (\<exists>l1 l2. l = l1 @ l2
        \<and> ((\<exists>e r1. r = Inl e \<and> Q1 r1 l1 \<and> Q2 (Inl e) l2) \<or> (Q1 r l1 \<and> Q2 (Inr ()) l2)))"

definition calls_sat :: "(call \<Rightarrow> bool) \<Rightarrow> ('w, 'a) prog \<Rightarrow> bool" where
  "calls_sat P m = post m (\<lambda>r l. \<forall>c \<in> set l. P c)"

definition no_throw :: "('w, 'a) prog \<Rightarrow> bool" where
  "no_throw m = post m (\<lambda>r l. \<exists>a. r = Inr a)"


section \<open>Kinds of git commands\<close>

text \<open>
  The merge-phase commands, which \<open>mergeBranch\<close> issues through \<open>execGitSafe\<close>: merge,
  commit, rev-parse of the new commit, push, and the two ways to abort.
\<close>

definition worktree_command :: "git_cmd \<Rightarrow> bool" where
  "worktree_command c =
     (case c of
        MergeSquash b \<Rightarrow> True
      | Commit m \<Rightarrow> True
      | RevParseHead \<Rightarrow> True
      | MergeNoFF m b \<Rightarrow> True
      | PushOriginHead t \<Rightarrow> True
      | ResetHardHead \<Rightarrow> True
      | MergeAbort \<Rightarrow> True
      | _ \<Rightarrow> False)"

text \<open>
  The commands that change the checkout they run in (the commit \<open>HEAD\<close> resolves to, the
  index or the working tree): the merges, commit, \<open>reset --hard\<close> and \<open>merge --abort\<close>.
\<close>

definition changes_checkout :: "git_cmd \<Rightarrow> bool" where
  "changes_checkout c =
     (case c of
        MergeSquash b \<Rightarrow> True
      | Commit m \<Rightarrow> True
      | MergeNoFF m b \<Rightarrow> True
      | ResetHardHead \<Rightarrow> True
      | MergeAbort \<Rightarrow> True
      | MergeFFOnly r \<Rightarrow> True
      | _ \<Rightarrow> False)"

text \<open>Where a command of \<open>mergeBranch\<close> runs, and whether behind the guard.\<close>

definition placed :: "'w machine \<Rightarrow> string \<Rightarrow> call \<Rightarrow> bool" where
  "placed M root c =
     (if worktree_command (cmd c)
      then via_safe c \<and> path_resolve M (cwd c) \<noteq> path_resolve M root
      else \<not> via_safe c \<and> cwd c = root)"

text \<open>Further kinds of commands, by the step of \<open>mergeBranch\<close> that issues them.\<close>

definition is_merge_base :: "git_cmd \<Rightarrow> bool" where
  "is_merge_base c = (case c of MergeBase a b \<Rightarrow> True | _ \<Rightarrow> False)"

definition is_merge_tree :: "git_cmd \<Rightarrow> bool" where
  "is_merge_tree c = (case c of MergeTree base a b \<Rightarrow> True | _ \<Rightarrow> False)"

definition is_worktree_add :: "git_cmd \<Rightarrow> bool" where
  "is_worktree_add c = (case c of WorktreeAddDetach d r \<Rightarrow> True | _ \<Rightarrow> False)"

definition is_worktree_remove :: "git_cmd \<Rightarrow> bool" where
  "is_worktree_remove c = (case c of WorktreeRemoveForce d \<Rightarrow> True | _ \<Rightarrow> False)"

definition decisive :: "git_cmd \<Rightarrow> bool" where
  "decisive c =
     (case c of MergeSquash b \<Rightarrow> True | Commit m \<Rightarrow> True | RevParseHead \<Rightarrow> True
      | MergeNoFF m b \<Rightarrow> True | _ \<Rightarrow> False)"

definition is_sync_command :: "git_cmd \<Rightarrow> bool" where
  "is_sync_command c =
     (case c of SymbolicRefShortHead \<Rightarrow> True | MergeFFOnly r \<Rightarrow> True
      | FetchOriginRef t \<Rightarrow> True | BranchForce t h \<Rightarrow> True | _ \<Rightarrow> False)"

text \<open>
  \<open>currentBranch\<close> in the sync functions: the trimmed output of \<open>git symbolic-ref --short
  HEAD\<close>, or \<open>undefined\<close> when \<open>HEAD\<close> is detached and the command fails.
\<close>

definition current_branch :: "exec_result \<Rightarrow> string option" where
  "current_branch res = (case res of ExecOk out \<Rightarrow> Some (trim out) | ExecFail e \<Rightarrow> None)"

text \<open>The \<open>stdout\<close> of the dry run, whether \<open>merge-tree\<close> resolved or was rejected.\<close>

definition dry_run_stdout :: "exec_result \<Rightarrow> string option" where
  "dry_run_stdout res = (case res of ExecOk out \<Rightarrow> Some out | ExecFail e \<Rightarrow> err_stdout e)"

definition preflight_verdict :: "exec_result \<Rightarrow> MergeBranchResult option" where
  "preflight_verdict res =
     (case (case res of ExecOk out \<Rightarrow> Some out | ExecFail e \<Rightarrow> err_stdout e) of
        Some out \<Rightarrow> if str_includes out ''<<<<<<<'' then Some (preflight_result out) else None
      | None \<Rightarrow> None)"

definition map_result :: "(string \<Rightarrow> 'a) \<Rightarrow> exec_result \<Rightarrow> exec_error + 'a" where
  "map_result f r = (case r of ExecOk out \<Rightarrow> Inr (f out) | ExecFail e \<Rightarrow> Inl e)"

definition returns :: "'a \<Rightarrow> (exec_error + 'a) \<Rightarrow> call list \<Rightarrow> bool" where
  "returns a r l = (r = Inr a \<and> l = [])"

definition setup_spec :: "(exec_error + 'a) \<Rightarrow> call list \<Rightarrow> bool" where
  "setup_spec r l = ((\<exists>a. r = Inr a) \<and> (\<forall>c \<in> set l. is_probe (cmd c)))"

abbreviation logged :: "string \<Rightarrow> git_cmd \<Rightarrow> exec_result \<Rightarrow> call" where
  "logged dir c res \<equiv> \<lparr>cwd = dir, cmd = c, via_safe = False, result = res\<rparr>"

text \<open>What each step of \<open>mergeBranch\<close> can leave behind: its outcome and the commands it ran.\<close>

inductive fetch_spec :: "string \<Rightarrow> bool \<Rightarrow> (exec_error + unit) \<Rightarrow> call list \<Rightarrow> bool"
  for root :: string and lo :: bool where
  skipped: "lo \<Longrightarrow> fetch_spec root lo (Inr ()) []"
| fetched: "\<not> lo \<Longrightarrow> fetch_spec root lo (Inr ()) [logged root FetchOrigin (ExecOk out)]"
| fetch_failed: "\<not> lo \<Longrightarrow> fetch_spec root lo (Inl e) [logged root FetchOrigin (ExecFail e)]"

inductive preflight_spec ::
  "string \<Rightarrow> (exec_error + MergeBranchResult option) \<Rightarrow> call list \<Rightarrow> bool"
  for root :: string where
  switched_off: "preflight_spec root (Inr None) []"
| no_merge_base: "preflight_spec root (Inr None) [logged root (MergeBase a b) (ExecFail e)]"
| dry_run:
    "preflight_spec root (Inr (preflight_verdict res))
       [logged root (MergeBase a b) (ExecOk out), logged root (MergeTree base a b) res]"

definition clean_ok :: "string \<Rightarrow> string \<Rightarrow> call list \<Rightarrow> bool" where
  "clean_ok root dir clean =
     (clean = [] \<or> (\<exists>out. clean = [logged root (WorktreeRemoveForce dir) (ExecOk out)]))"

inductive worktree_spec :: "string \<Rightarrow> (exec_error + string) \<Rightarrow> call list \<Rightarrow> bool"
  for root :: string where
  cleanup_failed:
    "worktree_spec root (Inl e) [logged root (WorktreeRemoveForce dir) (ExecFail e)]"
| add_failed:
    "clean_ok root dir clean \<Longrightarrow>
     worktree_spec root (Inl e) (clean @ [logged root (WorktreeAddDetach dir ref) (ExecFail e)])"
| added:
    "clean_ok root dir clean \<Longrightarrow>
     worktree_spec root (Inr dir) (clean @ [logged root (WorktreeAddDetach dir ref) (ExecOk out)])"

inductive merge_spec ::
  "string \<Rightarrow> string \<Rightarrow> (exec_error + MergeBranchResult) \<Rightarrow> call list \<Rightarrow> bool"
  for root :: string and dir :: string where
  merged:
    "\<forall>c \<in> set l1. worktree_command (cmd c) \<Longrightarrow>
     success mr \<longrightarrow> commitHash mr \<noteq> None \<Longrightarrow>
     (\<exists>c \<in> set l1. decisive (cmd c) \<and> \<not> succeeded (result c)) \<longrightarrow> \<not> success mr \<Longrightarrow>
     merge_spec root dir (Inr mr) (l1 @ [logged root (WorktreeRemoveForce dir) res])"

definition sync_spec :: "(exec_error + unit) \<Rightarrow> call list \<Rightarrow> bool" where
  "sync_spec r l = (r = Inr () \<and> (\<forall>c \<in> set l. is_sync_command (cmd c)))"

definition steps_spec ::
  "string \<Rightarrow> bool \<Rightarrow> (exec_error + bool \<times> MergeBranchResult) \<Rightarrow> call list \<Rightarrow> bool" where
  "steps_spec root lo =
     seq (fetch_spec root lo) (\<lambda>_.
     seq (preflight_spec root) (\<lambda>early.
     case early of
       Some r \<Rightarrow> returns (True, r)
     | None \<Rightarrow>
         seq (worktree_spec root) (\<lambda>dir.
         seq (merge_spec root dir) (\<lambda>mr. returns (False, mr)))))"

definition whole_spec :: "string \<Rightarrow> (exec_error + MergeBranchResult) \<Rightarrow> call list \<Rightarrow> bool" where
  "whole_spec root =
     seq setup_spec (\<lambda>lo :: bool.
     seq setup_spec (\<lambda>t :: string.
     seq (steps_spec root lo) (\<lambda>(returned, mr).
     if returned then returns mr else seq sync_spec (\<lambda>_. returns mr))))"

text \<open>
  The runs of steps 1 to 7, spelled out: the fetch fails; or the pre-flight check rejects;
  or the leftover cleanup fails; or \<open>worktree add\<close> fails; or the worktree is created, the
  merge is attempted in it, and the worktree is removed.
\<close>

definition fetch_ok :: "string \<Rightarrow> call list \<Rightarrow> bool" where
  "fetch_ok root fetch = (fetch = [] \<or> (\<exists>out. fetch = [logged root FetchOrigin (ExecOk out)]))"

definition pre_pass :: "string \<Rightarrow> call list \<Rightarrow> bool" where
  "pre_pass root pre =
     (pre = []
      \<or> (\<exists>a b e. pre = [logged root (MergeBase a b) (ExecFail e)])
      \<or> (\<exists>a b out base res. preflight_verdict res = None
            \<and> pre = [logged root (MergeBase a b) (ExecOk out), logged root (MergeTree base a b) res]))"

inductive steps_shape ::
  "string \<Rightarrow> (exec_error + bool \<times> MergeBranchResult) \<Rightarrow> call list \<Rightarrow> bool"
  for root :: string where
  fetch_throws: "steps_shape root (Inl e) [logged root FetchOrigin (ExecFail e)]"
| rejected:
    "fetch_ok root fetch \<Longrightarrow> preflight_verdict res = Some v \<Longrightarrow>
     steps_shape root (Inr (True, v))
       (fetch @ [logged root (MergeBase a b) (ExecOk out), logged root (MergeTree base a b) res])"
| cleanup_throws:
    "fetch_ok root fetch \<Longrightarrow> pre_pass root pre \<Longrightarrow>
     steps_shape root (Inl e)
       (fetch @ pre @ [logged root (WorktreeRemoveForce dir) (ExecFail e)])"
| add_throws:
    "fetch_ok root fetch \<Longrightarrow> pre_pass root pre \<Longrightarrow> clean_ok root dir clean \<Longrightarrow>
     steps_shape root (Inl e)
       (fetch @ pre @ clean @ [logged root (WorktreeAddDetach dir ref) (ExecFail e)])"
| merge_attempted:
    "fetch_ok root fetch \<Longrightarrow> pre_pass root pre \<Longrightarrow> clean_ok root dir clean \<Longrightarrow>
     \<forall>c \<in> set l1. worktree_command (cmd c) \<Longrightarrow>
     success mr \<longrightarrow> commitHash mr \<noteq> None \<Longrightarrow>
     (\<exists>c \<in> set l1. decisive (cmd c) \<and> \<not> succeeded (result c)) \<longrightarrow> \<not> success mr \<Longrightarrow>
     steps_shape root (Inr (False, mr))
       (fetch @ pre @ clean @ [logged root (WorktreeAddDetach dir ref) (ExecOk out)] @ l1
          @ [logged root (WorktreeRemoveForce dir) res])"

text \<open>A whole run: the queries of the setup, steps 1 to 7, and the sync if it is reached.\<close>

inductive run_shape :: "string \<Rightarrow> (exec_error + MergeBranchResult) \<Rightarrow> call list \<Rightarrow> bool"
  for root :: string where
  run_throws:
    "\<forall>c \<in> set probes. is_probe (cmd c) \<Longrightarrow> steps_shape root (Inl e) ls \<Longrightarrow>
     run_shape root (Inl e) (probes @ ls)"
| run_returns_early:
    "\<forall>c \<in> set probes. is_probe (cmd c) \<Longrightarrow> steps_shape root (Inr (True, mr)) ls \<Longrightarrow>
     run_shape root (Inr mr) (probes @ ls)"
| run_completes:
    "\<forall>c \<in> set probes. is_probe (cmd c) \<Longrightarrow> steps_shape root (Inr (False, mr)) ls \<Longrightarrow>
     \<forall>c \<in> set sync. is_sync_command (cmd c) \<Longrightarrow>
     run_shape root (Inr mr) (probes @ ls @ sync)"

definition returns_only :: "('a \<Rightarrow> bool) \<Rightarrow> ('w, 'a) prog \<Rightarrow> bool" where
  "returns_only V m = post m (\<lambda>r l. \<forall>a. r = Inr a \<longrightarrow> V a)"

definition ok_calls :: "(call \<Rightarrow> bool) \<Rightarrow> ('w, 'a) prog \<Rightarrow> bool" where
  "ok_calls P m = post m (\<lambda>r l. (\<exists>a. r = Inr a) \<longrightarrow> (\<forall>c \<in> set l. P c))"

text \<open>
  A run in a workspace that is checked out on \<open>main\<close>, with a remote, the target given and
  the pre-flight check switched off.
\<close>

definition on_main :: "git_cmd \<Rightarrow> exec_result" where
  "on_main c =
     (if c = SymbolicRefShortHead then ExecOk ''main''
      else if c = RevParseHead then ExecOk ''abc123''
      else ExecOk [])"

definition plain_options :: MergeBranchOptions where
  "plain_options =
     \<lparr>workspaceRoot = ''/repo'', sourceBranch = ''feature'', targetBranch = Some ''main'',
      mergeStrategy = None, autoPush = None, commitMessage = Some ''msg'',
      preflight = Some False, syncLocal = None, localOnly = Some False\<rparr>"

text \<open>
  Further runs: a dry run that shows a conflict, branches without a common ancestor, an
  unreachable remote, a refused \<open>worktree add\<close>, and a commit that fails in the worktree.
\<close>

definition conflicting :: "git_cmd \<Rightarrow> exec_result" where
  "conflicting c =
     (case c of
        MergeBase a b \<Rightarrow> ExecOk ''b1''
      | MergeTree base a b \<Rightarrow> ExecOk (''+++ b/a.c'' @ [CHR 0x0A] @ ''<<<<<<< .our'')
      | _ \<Rightarrow> ExecOk [])"

definition unrelated :: "git_cmd \<Rightarrow> exec_result" where
  "unrelated c =
     (case c of
        MergeBase a b \<Rightarrow> failure ''no base''
      | RevParseHead \<Rightarrow> ExecOk ''abc123''
      | _ \<Rightarrow> ExecOk [])"



definition commit_fails :: "git_cmd \<Rightarrow> exec_result" where
  "commit_fails c = (case c of Commit m \<Rightarrow> failure ''empty'' | _ \<Rightarrow> ExecOk [])"

definition preflight_options :: MergeBranchOptions where
  "preflight_options =
     \<lparr>workspaceRoot = ''/repo'', sourceBranch = ''feature'', targetBranch = Some ''main'',
      mergeStrategy = None, autoPush = None, commitMessage = Some ''msg'',
      preflight = None, syncLocal = Some False, localOnly = Some False\<rparr>"

text \<open>
  The commands of the local sync as the amended claim has them, from the world \<open>w\<close> in which
  step 8 starts: in local-only mode the current branch is asked for, then the merge commit
  is fast-forwarded in place when the workspace is on the target branch and the branch ref
  is forced otherwise; with a remote and \<open>autoPush\<close> the current branch is asked for and,
  unless \<open>HEAD\<close> is detached, \<open>origin/target\<close> is fast-forwarded in place on the target
  branch and the ref is fetched otherwise; with a remote and no \<open>autoPush\<close> nothing runs.
\<close>

definition sync_as_designed ::
  "'w machine \<Rightarrow> string \<Rightarrow> string \<Rightarrow> bool \<Rightarrow> bool \<Rightarrow> string \<Rightarrow> 'w \<Rightarrow> call list" where
  "sync_as_designed M root target lo doPush hash w =
     (let res = fst (exec M w root SymbolicRefShortHead);
          w1 = snd (exec M w root SymbolicRefShortHead);
          local_cmd = (if current_branch res = Some target then MergeFFOnly hash
                       else BranchForce target hash);
          remote_cmd = (if current_branch res = Some target
                        then MergeFFOnly (''origin/'' @ target) else FetchOriginRef target)
      in if lo then
           [logged root SymbolicRefShortHead res,
            logged root local_cmd (fst (exec M w1 root local_cmd))]
         else if doPush then
           (if current_branch res = None \<or> current_branch res = Some []
            then [logged root SymbolicRefShortHead res]
            else [logged root SymbolicRefShortHead res,
                  logged root remote_cmd (fst (exec M w1 root remote_cmd))])
         else [])"

text \<open>Runs for the sync: no push; a detached \<open>HEAD\<close>; a workspace on another branch.\<close>

definition no_push_options :: MergeBranchOptions where
  "no_push_options =
     \<lparr>workspaceRoot = ''/repo'', sourceBranch = ''feature'', targetBranch = Some ''main'',
      mergeStrategy = None, autoPush = Some False, commitMessage = Some ''msg'',
      preflight = Some False, syncLocal = Some True, localOnly = Some False\<rparr>"

definition detached_head :: "git_cmd \<Rightarrow> exec_result" where
  "detached_head c =
     (case c of
        SymbolicRefShortHead \<Rightarrow> failure ''detached''
      | RevParseHead \<Rightarrow> ExecOk ''abc123''
      | _ \<Rightarrow> ExecOk [])"

definition on_feature :: "git_cmd \<Rightarrow> exec_result" where
  "on_feature c =
     (case c of
        SymbolicRefShortHead \<Rightarrow> ExecOk ''work''
      | RevParseHead \<Rightarrow> ExecOk ''abc123''
      | FetchOriginRef t \<Rightarrow> failure ''non-ff''
      | _ \<Rightarrow> ExecOk [])"






section \<open>Properties of the rate limit tracker\<close>

lemma resetOf_markLimited:
  "resetOf (markLimited now e t lim) e =
     Some (case resetOf lim e of None \<Rightarrow> t | Some old \<Rightarrow> max old t)"
  by (auto simp: resetOf_def markLimited_def update_conv' split: option.splits)

lemma limitedNow_after_isLimited:
  "limitedNow now (snd (isLimited now e' lim)) e = limitedNow now lim e"
  by (auto simp: limitedNow_def isLimited_def delete_conv' split: option.splits)

lemma find_cong_pred: "(\<And>x. x \<in> set xs \<Longrightarrow> P x = Q x) \<Longrightarrow> find P xs = find Q xs"
  by (induction xs) auto

lemma getAvailableExecutable_find:
  "fst (getAvailableExecutable now chain lim) = find (\<lambda>e. \<not> limitedNow now lim e) chain"
proof (induction chain arbitrary: lim)
  case Nil
  show ?case by simp
next
  case (Cons e rest)
  obtain limited lim' where il: "isLimited now e lim = (limited, lim')"
    by (cases "isLimited now e lim")
  have lim': "lim' = snd (isLimited now e lim)" and limited: "limited = limitedNow now lim e"
    using il by (simp_all add: limitedNow_def)
  show ?case
  proof (cases limited)
    case False
    then show ?thesis using il limited by simp
  next
    case True
    have "find (\<lambda>x. \<not> limitedNow now lim' x) rest = find (\<lambda>x. \<not> limitedNow now lim x) rest"
      by (rule find_cong_pred) (simp add: lim' limitedNow_after_isLimited)
    then show ?thesis using True il limited Cons.IH [of lim'] by simp
  qed
qed

text \<open>
  C3. Two \<open>markLimited\<close> calls on one executable that was not tracked before leave its
  reset time at the maximum of the two arguments; and on an executable that is tracked
  with reset time \<open>old\<close>, one call leaves \<open>max old t\<close>: an earlier time never shortens the
  window, a later one extends it.
\<close>

theorem markLimited_keeps_maximum:
  "(resetOf lim e = None \<longrightarrow>
      resetOf (markLimited n2 e t2 (markLimited n1 e t1 lim)) e = Some (max t1 t2))
   \<and> (resetOf lim e = Some old \<longrightarrow>
      resetOf (markLimited n1 e t lim) e = Some (max old t))"
  by (simp add: resetOf_markLimited)

theorem markLimited_keeps_maximum_witness:
  "resetOf [] ''claude'' = None
   \<and> resetOf (markLimited 2 ''claude'' 30000 (markLimited 1 ''claude'' 120000 [])) ''claude''
       = Some 120000
   \<and> resetOf [(''claude'', \<lparr>resetsAt = 120000, recordedAt = 1\<rparr>)] ''claude'' = Some 120000
   \<and> resetOf (markLimited 2 ''claude'' 30000
         [(''claude'', \<lparr>resetsAt = 120000, recordedAt = 1\<rparr>)]) ''claude'' = Some 120000"
  using markLimited_keeps_maximum
      [where lim = "[]" and e = "''claude''" and ?n2.0 = 2 and ?t2.0 = 30000
         and ?n1.0 = 1 and ?t1.0 = 120000]
    markLimited_keeps_maximum
      [where lim = "[(''claude'', \<lparr>resetsAt = 120000, recordedAt = 1\<rparr>)]"
         and e = "''claude''" and ?n1.0 = 2 and t = 30000 and old = 120000]
  by (simp add: resetOf_def)

text \<open>
  C4. \<open>getAvailableExecutable\<close> returns the first element of the chain that is not
  limited, in chain order; it returns \<open>undefined\<close> exactly when every element of the
  chain is limited, and so for the empty chain.
\<close>

theorem getAvailableExecutable_first_available:
  "fst (getAvailableExecutable now chain lim) = find (\<lambda>e. \<not> limitedNow now lim e) chain
   \<and> (fst (getAvailableExecutable now chain lim) = None
        \<longleftrightarrow> (\<forall>e \<in> set chain. limitedNow now lim e))
   \<and> fst (getAvailableExecutable now [] lim) = None"
  by (auto simp: getAvailableExecutable_find find_None_iff)

theorem getAvailableExecutable_first_available_witness:
  "fst (getAvailableExecutable 1000 [''claude'', ''gpt-4'', ''gemini'']
          (markLimited 0 ''gpt-4'' 900 (markLimited 0 ''claude'' 61000 []))) = Some ''gpt-4''
   \<and> limitedNow 1000 (markLimited 0 ''claude'' 61000 []) ''claude''
   \<and> set [''claude''] = {''claude''}
   \<and> fst (getAvailableExecutable 1000 [''claude''] (markLimited 0 ''claude'' 61000 [])) = None"
  using getAvailableExecutable_first_available
      [of 1000 "[''claude'', ''gpt-4'', ''gemini'']"
          "markLimited 0 ''gpt-4'' 900 (markLimited 0 ''claude'' 61000 [])"]
    getAvailableExecutable_first_available
      [of 1000 "[''claude'']" "markLimited 0 ''claude'' 61000 []"]
  by (simp add: limitedNow_def isLimited_def markLimited_def)

section \<open>Properties of the diagnostics read model\<close>

lemma stuck_loop_filter:
  "stuck_loop gm ga ts acc =
     acc @ map (diagnostic_of gm)
             (filter (\<lambda>t. case gm (task_metadata t) of
                             None \<Rightarrow> False
                           | Some meta \<Rightarrow>
                               (case assignedAgent meta of
                                  None \<Rightarrow> False
                                | Some agent \<Rightarrow>
                                    agent \<noteq> []
                                    \<and> (case meta_resumeCount meta of None \<Rightarrow> False | Some n \<Rightarrow> n \<ge> 2)
                                    \<and> ga agent = None)) ts)"
  by (induction ts arbitrary: acc)
     (auto simp: diagnostic_of_def Let_def split: option.splits)

text \<open>
  C8. The stuck tasks of the diagnostics response are, in store order, exactly the tasks
  whose status is in progress or review, that have an assigned agent, whose resume count
  is at least 2 and whose agent has no active session; the function only builds the list
  of diagnostics, it starts or retries nothing.
\<close>

theorem collectStuckTasks_exactly_stuck:
  "collectStuckTasks getMeta getActive allTasks =
     map (diagnostic_of getMeta) (filter (stuck_by_spec getMeta getActive) allTasks)"
proof -
  have "filter (stuck_by_spec getMeta getActive) allTasks =
        filter (\<lambda>t. case getMeta (task_metadata t) of
                       None \<Rightarrow> False
                     | Some meta \<Rightarrow>
                         (case assignedAgent meta of
                            None \<Rightarrow> False
                          | Some agent \<Rightarrow>
                              agent \<noteq> []
                              \<and> (case meta_resumeCount meta of None \<Rightarrow> False | Some n \<Rightarrow> n \<ge> 2)
                              \<and> getActive agent = None))
          (filter (\<lambda>t. task_status t = TaskStatus_IN_PROGRESS \<or> task_status t = TaskStatus_REVIEW)
             allTasks)"
    by (induction allTasks)
       (auto simp: stuck_by_spec_def TaskStatus_IN_PROGRESS_def TaskStatus_REVIEW_def)
  then show ?thesis
    by (simp add: collectStuckTasks_def stuck_loop_filter)
qed

theorem collectStuckTasks_exactly_stuck_witness:
  "map taskId
     (collectStuckTasks (\<lambda>m. m) (\<lambda>a. if a = ''el-busy'' then Some () else None)
        [\<lparr>task_id = ''el-stuck1'', task_title = Some ''Stuck task'', task_status = ''in_progress'',
          task_metadata = Some \<lparr>assignedAgent = Some ''el-worker1'', meta_resumeCount = Some 3,
                                meta_mergeStatus = None\<rparr>\<rparr>,
         \<lparr>task_id = ''el-low'', task_title = Some ''Low resume task'', task_status = ''review'',
          task_metadata = Some \<lparr>assignedAgent = Some ''el-worker1'', meta_resumeCount = Some 1,
                                meta_mergeStatus = None\<rparr>\<rparr>,
         \<lparr>task_id = ''el-active1'', task_title = None, task_status = ''in_progress'',
          task_metadata = Some \<lparr>assignedAgent = Some ''el-busy'', meta_resumeCount = Some 5,
                                meta_mergeStatus = None\<rparr>\<rparr>,
         \<lparr>task_id = ''el-closed'', task_title = None, task_status = ''closed'',
          task_metadata = Some \<lparr>assignedAgent = Some ''el-worker1'', meta_resumeCount = Some 4,
                                meta_mergeStatus = None\<rparr>\<rparr>,
         \<lparr>task_id = ''el-review'', task_title = None, task_status = ''review'',
          task_metadata = Some \<lparr>assignedAgent = Some ''el-worker2'', meta_resumeCount = Some 2,
                                meta_mergeStatus = Some ''testing''\<rparr>\<rparr>])
   = [''el-stuck1'', ''el-review'']"
  by (simp add: collectStuckTasks_exactly_stuck stuck_by_spec_def diagnostic_of_def)


section \<open>Properties of the rate limit guard\<close>






section \<open>Properties of the merge utilities\<close>

lemma run_git_pure:
  "snd (exec M w root c) = w \<Longrightarrow>
   run_git M safe c root w =
     (thrown_or_stdout (fst (exec M w root c)), w,
      [\<lparr>cwd = root, cmd = c, via_safe = safe, result = fst (exec M w root c)\<rparr>])"
  by (cases "exec M w root c") (simp add: run_git_def)

lemma probe_ok:
  assumes "snd (exec M w root c) = w"
  shows "try_catch (bnd (execAsync M c root) (\<lambda>out. ret (f out))) h w =
    (case fst (exec M w root c) of
       ExecOk out \<Rightarrow>
         (Inr (f out), w, [\<lparr>cwd = root, cmd = c, via_safe = False, result = ExecOk out\<rparr>])
     | ExecFail e \<Rightarrow>
         (case h e w of
            (r, w', l) \<Rightarrow>
              (r, w', \<lparr>cwd = root, cmd = c, via_safe = False, result = ExecFail e\<rparr> # l)))"
  using assms
  by (simp add: try_catch_def bnd_def execAsync_def run_git_pure ret_def thrown_or_stdout_def
      split: exec_result.splits prod.splits)

lemma bnd_apply:
  "bnd m f w =
     (case m w of
        (Inl e, w', l) \<Rightarrow> (Inl e, w', l)
      | (Inr a, w', l) \<Rightarrow> (case f a w' of (r, w'', l') \<Rightarrow> (r, w'', l @ l')))"
  by (simp add: bnd_def)

lemma ret_apply: "ret a w = (Inr a, w, [])"
  by (simp add: ret_def)

lemma detect_local_outcome:
  assumes ro: "\<And>r. snd (exec M w root (RevParseVerify r)) = w"
  shows "fst (detect_local M root [''main'', ''master''] w) =
     Inr (if succeeded (probe_answers M w root (RevParseVerify ''refs/heads/main'')) then ''main''
          else if succeeded (probe_answers M w root (RevParseVerify ''refs/heads/master''))
          then ''master'' else ''main'')"
  by (simp add: probe_ok ro ret_apply succeeded_def probe_answers_def
       split: exec_result.splits prod.splits)

lemma fst_relog: "fst (case p of (r, w', l') \<Rightarrow> (r, w', g l')) = fst p"
  by (cases p) simp

lemma detectTargetBranch_outcome:
  assumes ro: "\<And>c. is_probe c \<Longrightarrow> snd (exec M w root c) = w"
  shows "outcome_of (detectTargetBranch M root) w =
     Inr (detect_by_spec None (visible_answers M w root))"
proof -
  have p: "snd (exec M w root (RemoteGetUrl ''origin'')) = w"
    "snd (exec M w root SymbolicRefOriginHead) = w"
    "\<And>r. snd (exec M w root (RevParseVerify r)) = w"
    by (simp_all add: ro is_probe_def)
  note loc = detect_local_outcome [of M w root, OF p(3)]
  show ?thesis
  proof (cases "fst (exec M w root (RemoteGetUrl ''origin''))")
    case (ExecFail e)
    then show ?thesis
      unfolding outcome_of_def detectTargetBranch_def hasRemote_def
      using loc
      by (simp add: bnd_apply probe_ok p ret_apply detect_by_spec_def symref_branch_def
          succeeded_def probe_answers_def without_origin_def fst_relog visible_answers_def
          del: detect_local.simps)
  next
    case (ExecOk out)
    then show ?thesis
      unfolding outcome_of_def detectTargetBranch_def hasRemote_def
      using loc
      by (simp add: bnd_apply probe_ok p ret_apply detect_by_spec_def symref_branch_def
          succeeded_def probe_answers_def fst_relog visible_answers_def
          del: detect_local.simps split: exec_result.splits option.splits)
  qed
qed

lemma scripted_read_only: "snd (exec (scripted answer) w root c) = w"
  by (simp add: scripted_def)

lemmas text_simps =
  trim_def match_here_def starts_with_def dot_plus_def is_space_def is_line_terminator_def

lemmas detect_simps =
  scripted_def detect_by_spec_def probe_answers_def visible_answers_def without_origin_def
  succeeded_def symref_branch_def failure_def

text \<open>
  C2 (as amended). \<open>detectTargetBranch\<close> has no step for a configured base branch: it takes
  the workspace root only, and a caller such as \<open>mergeBranch\<close> puts its own
  \<open>targetBranch\<close> option first. In a repository whose queries are read-only, the function
  returns the first step that succeeds of: remote symbolic ref, \<open>origin/main\<close>,
  \<open>origin/master\<close>, local \<open>main\<close>, local \<open>master\<close>, literal \<open>main\<close>, where the three steps
  about \<open>origin\<close> are made only if an \<open>origin\<close> remote exists.
\<close>

theorem detectTargetBranch_fallback_order:
  assumes "\<And>c. is_probe c \<Longrightarrow> snd (exec M w (workspaceRoot options) c) = w"
  shows "outcome_of (detectTargetBranch M (workspaceRoot options)) w =
           Inr (detect_by_spec None (visible_answers M w (workspaceRoot options)))
         \<and> outcome_of (resolve_targetBranch M options) w =
           Inr (detect_by_spec (targetBranch options)
                  (visible_answers M w (workspaceRoot options)))"
  using detectTargetBranch_outcome [OF assms]
  by (simp add: resolve_targetBranch_def detect_by_spec_def outcome_of_def ret_apply
      split: option.splits)

theorem detectTargetBranch_fallback_order_witness:
  "outcome_of (detectTargetBranch (scripted repo_with_origin_head) ''/repo'') () = Inr ''main''
   \<and> outcome_of (detectTargetBranch (scripted repo_without_origin) ''/repo'') () = Inr ''master''
   \<and> outcome_of
        (resolve_targetBranch (scripted repo_with_origin_head)
           \<lparr>workspaceRoot = ''/repo'', sourceBranch = ''feature'', targetBranch = Some ''develop'',
            mergeStrategy = None, autoPush = None, commitMessage = None, preflight = None,
            syncLocal = None, localOnly = None\<rparr>) () = Inr ''develop''"
  using
    detectTargetBranch_fallback_order
      [of "scripted repo_with_origin_head" "()"
          "\<lparr>workspaceRoot = ''/repo'', sourceBranch = ''feature'', targetBranch = Some ''develop'',
            mergeStrategy = None, autoPush = None, commitMessage = None, preflight = None,
            syncLocal = None, localOnly = None\<rparr>",
       OF scripted_read_only]
    detectTargetBranch_fallback_order
      [of "scripted repo_without_origin" "()"
          "\<lparr>workspaceRoot = ''/repo'', sourceBranch = ''feature'', targetBranch = None,
            mergeStrategy = None, autoPush = None, commitMessage = None, preflight = None,
            syncLocal = None, localOnly = None\<rparr>",
       OF scripted_read_only]
  by (simp add: detect_simps text_simps repo_with_origin_head_def repo_without_origin_def)

text \<open>
  The claim as stated fails twice. With a configured base branch \<open>develop\<close> the function
  still answers from the repository (\<open>main\<close>). And without an \<open>origin\<close> remote it skips
  \<open>origin/main\<close> although that ref exists, and answers \<open>master\<close> from the local branch
  where the stated order gives \<open>main\<close>.
\<close>

theorem detectTargetBranch_order_counterexample:
  "outcome_of (detectTargetBranch (scripted repo_with_origin_head) ''/repo'') ()
     \<noteq> Inr (detect_by_spec (Some ''develop'')
              (probe_answers (scripted repo_with_origin_head) () ''/repo''))
   \<and> outcome_of (detectTargetBranch (scripted repo_without_origin) ''/repo'') ()
     \<noteq> Inr (detect_by_spec None (probe_answers (scripted repo_without_origin) () ''/repo''))"
  using
    detectTargetBranch_outcome [of "scripted repo_with_origin_head" "()" "''/repo''",
      OF scripted_read_only]
    detectTargetBranch_outcome [of "scripted repo_without_origin" "()" "''/repo''",
      OF scripted_read_only]
  by (simp add: detect_simps text_simps repo_with_origin_head_def repo_without_origin_def)


lemma postD: "post m Q \<Longrightarrow> m w = (r, w', l) \<Longrightarrow> Q r l"
  unfolding post_def outcome_of_def calls_of_def
  by (drule spec [of _ w]) simp

lemma postI: "(\<And>w r w' l. m w = (r, w', l) \<Longrightarrow> Q r l) \<Longrightarrow> post m Q"
  unfolding post_def outcome_of_def calls_of_def
  by (metis prod.collapse)

lemma post_ret: "Q (Inr a) [] \<Longrightarrow> post (ret a) Q"
  by (simp add: post_def ret_def outcome_of_def calls_of_def)

lemma post_throw: "Q (Inl e) [] \<Longrightarrow> post (throw e) Q"
  by (simp add: post_def throw_def outcome_of_def calls_of_def)

lemma post_ask: "(\<And>a. Q (Inr a) []) \<Longrightarrow> post (ask f) Q"
  by (simp add: post_def ask_def outcome_of_def calls_of_def)

lemma post_weaken: "post m Q \<Longrightarrow> (\<And>r l. Q r l \<Longrightarrow> Q' r l) \<Longrightarrow> post m Q'"
  by (simp add: post_def)

lemma post_bnd:
  assumes "post m Q1" and "\<And>a. post (f a) (Q2 a)"
  shows "post (bnd m f) (seq Q1 Q2)"
proof -
  have "seq Q1 Q2 (outcome_of (bnd m f) w) (calls_of (bnd m f) w)" for w
  proof (cases "m w")
    case (fields r w' l)
    have q1: "Q1 r l" using assms(1) fields by (rule postD)
    show ?thesis
    proof (cases r)
      case (Inl e)
      then show ?thesis using fields q1
        by (simp add: seq_def bnd_def outcome_of_def calls_of_def)
    next
      case (Inr a)
      obtain r2 w2 l2 where f: "f a w' = (r2, w2, l2)" by (cases "f a w'")
      have "Q2 a r2 l2" using assms(2) [of a] f by (rule postD)
      then show ?thesis using fields q1 Inr f
        by (auto simp: seq_def bnd_def outcome_of_def calls_of_def)
    qed
  qed
  then show ?thesis by (simp add: post_def)
qed

lemma post_try_catch:
  assumes "post m Q1" and "\<And>e. post (h e) (Q2 e)"
  shows "post (try_catch m h) (handled Q1 Q2)"
proof -
  have "handled Q1 Q2 (outcome_of (try_catch m h) w) (calls_of (try_catch m h) w)" for w
  proof (cases "m w")
    case (fields r w' l)
    have q1: "Q1 r l" using assms(1) fields by (rule postD)
    show ?thesis
    proof (cases r)
      case (Inr a)
      then show ?thesis using fields q1
        by (simp add: handled_def try_catch_def outcome_of_def calls_of_def)
    next
      case (Inl e)
      obtain r2 w2 l2 where f: "h e w' = (r2, w2, l2)" by (cases "h e w'")
      have "Q2 e r2 l2" using assms(2) [of e] f by (rule postD)
      then show ?thesis using fields q1 Inl f
        by (auto simp: handled_def try_catch_def outcome_of_def calls_of_def)
    qed
  qed
  then show ?thesis by (simp add: post_def)
qed

lemma post_try_finally:
  assumes "post m Q1" and "post fin Q2"
  shows "post (try_finally m fin) (finished Q1 Q2)"
proof (rule postI)
  fix w r w' l assume run: "try_finally m fin w = (r, w', l)"
  obtain r1 w1 l1 where m: "m w = (r1, w1, l1)" by (cases "m w")
  obtain r2 w2 l2 where f: "fin w1 = (r2, w2, l2)" by (cases "fin w1")
  have q1: "Q1 r1 l1" using assms(1) m by (rule postD)
  have q2: "Q2 r2 l2" using assms(2) f by (rule postD)
  show "finished Q1 Q2 r l"
  proof (cases r2)
    case (Inl e)
    then have "r = Inl e" "l = l1 @ l2" using run m f by (simp_all add: try_finally_def)
    then show ?thesis using q1 q2 Inl unfolding finished_def by blast
  next
    case (Inr u)
    then have "r = r1" "l = l1 @ l2" using run m f by (simp_all add: try_finally_def)
    then show ?thesis using q1 q2 Inr unfolding finished_def by auto
  qed
qed

lemma post_run_git:
  "(\<And>res. Q (thrown_or_stdout res) [\<lparr>cwd = dir, cmd = c, via_safe = safe, result = res\<rparr>])
   \<Longrightarrow> post (run_git M safe c dir) Q"
  by (auto simp: post_def run_git_def outcome_of_def calls_of_def split: prod.splits)

lemma calls_sat_ret: "calls_sat P (ret a)"
  by (simp add: calls_sat_def post_ret)

lemma calls_sat_throw: "calls_sat P (throw e)"
  by (simp add: calls_sat_def post_throw)

lemma calls_sat_ask: "calls_sat P (ask f)"
  by (simp add: calls_sat_def post_ask)

lemma calls_sat_bnd: "calls_sat P m \<Longrightarrow> (\<And>a. calls_sat P (f a)) \<Longrightarrow> calls_sat P (bnd m f)"
  unfolding calls_sat_def
  by (rule post_weaken [OF post_bnd]) (auto simp: seq_def)

lemma calls_sat_try_catch:
  "calls_sat P m \<Longrightarrow> (\<And>e. calls_sat P (h e)) \<Longrightarrow> calls_sat P (try_catch m h)"
  unfolding calls_sat_def
  by (rule post_weaken [OF post_try_catch]) (auto simp: handled_def)

lemma calls_sat_try_finally:
  "calls_sat P m \<Longrightarrow> calls_sat P fin \<Longrightarrow> calls_sat P (try_finally m fin)"
  unfolding calls_sat_def
  by (rule post_weaken [OF post_try_finally]) (auto simp: finished_def)

lemma calls_sat_run_git:
  "(\<And>res. P \<lparr>cwd = dir, cmd = c, via_safe = safe, result = res\<rparr>) \<Longrightarrow> calls_sat P (run_git M safe c dir)"
  unfolding calls_sat_def by (rule post_run_git) simp

lemma calls_sat_execAsync:
  "(\<And>res. P \<lparr>cwd = dir, cmd = c, via_safe = False, result = res\<rparr>) \<Longrightarrow> calls_sat P (execAsync M c dir)"
  unfolding execAsync_def by (rule calls_sat_run_git)

lemma calls_sat_execGitSafe:
  "(\<And>res. path_resolve M dir \<noteq> path_resolve M root \<Longrightarrow>
      P \<lparr>cwd = dir, cmd = c, via_safe = True, result = res\<rparr>)
   \<Longrightarrow> calls_sat P (execGitSafe M c dir root)"
  unfolding execGitSafe_def by (simp add: calls_sat_throw calls_sat_run_git)

lemma calls_sat_if:
  "(b \<Longrightarrow> calls_sat P m1) \<Longrightarrow> (\<not> b \<Longrightarrow> calls_sat P m2) \<Longrightarrow> calls_sat P (if b then m1 else m2)"
  by simp

lemma calls_sat_option:
  "calls_sat P m1 \<Longrightarrow> (\<And>x. calls_sat P (m2 x)) \<Longrightarrow> calls_sat P (case v of None \<Rightarrow> m1 | Some x \<Rightarrow> m2 x)"
  by (cases v) simp_all

lemma calls_sat_prod:
  "(\<And>a b. calls_sat P (m a b)) \<Longrightarrow> calls_sat P (case v of (a, b) \<Rightarrow> m a b)"
  by (cases v) simp

lemma calls_sat_strategy:
  "calls_sat P m1 \<Longrightarrow> calls_sat P m2 \<Longrightarrow> calls_sat P (case v of Squash \<Rightarrow> m1 | Merge \<Rightarrow> m2)"
  by (cases v) simp_all

lemma calls_sat_detect_local:
  "(\<And>r res. P \<lparr>cwd = root, cmd = RevParseVerify r, via_safe = False, result = res\<rparr>)
   \<Longrightarrow> calls_sat P (detect_local M root names)"
  by (induction names)
     (auto intro!: calls_sat_ret calls_sat_try_catch calls_sat_bnd calls_sat_execAsync)

lemmas calls_sat_intros =
  calls_sat_ret calls_sat_throw calls_sat_ask calls_sat_bnd calls_sat_try_catch
  calls_sat_try_finally calls_sat_execAsync calls_sat_execGitSafe calls_sat_if
  calls_sat_option calls_sat_prod calls_sat_strategy calls_sat_detect_local

lemmas merge_defs =
  mergeBranch_def resolve_localOnly_def resolve_targetBranch_def hasRemote_def
  detectTargetBranch_def merge_steps_1_to_7_def fetch_step_def preflight_step_def
  worktree_step_def merge_step_def merge_try_def merge_catch_def remove_worktree_def
  sync_step_def syncLocalBranch_def syncLocalBranchFromCommit_def


lemma mergeBranch_placed: "calls_sat (placed M (workspaceRoot options)) (mergeBranch M options)"
  unfolding merge_defs Let_def
  by (intro calls_sat_intros allI impI; simp add: placed_def worktree_command_def)


lemma try_catch_apply:
  "try_catch m h w =
     (case m w of
        (Inl e, w', l) \<Rightarrow> (case h e w' of (r, w'', l') \<Rightarrow> (r, w'', l @ l'))
      | (Inr a, w', l) \<Rightarrow> (Inr a, w', l))"
  by (simp add: try_catch_def)

lemma try_finally_apply:
  "try_finally m fin w =
     (case m w of
        (r, w', l) \<Rightarrow>
          (case fin w' of
             (Inl e, w'', l') \<Rightarrow> (Inl e, w'', l @ l')
           | (Inr u, w'', l') \<Rightarrow> (r, w'', l @ l')))"
  by (simp add: try_finally_def)

lemma ask_apply: "ask f w = (Inr (f w), w, [])"
  by (simp add: ask_def)

lemma throw_apply: "throw e w = (Inl e, w, [])"
  by (simp add: throw_def)

lemma run_git_scripted:
  "run_git (scripted answer) safe c dir w =
     (thrown_or_stdout (answer c), w, [\<lparr>cwd = dir, cmd = c, via_safe = safe, result = answer c\<rparr>])"
  by (simp add: run_git_def scripted_def)

lemma scripted_fields:
  "existsSync (scripted answer) w p = False"
  "date_now (scripted answer) w = 7"
  "path_resolve (scripted answer) p = p"
  "path_join (scripted answer) ps = foldr (\<lambda>a b. if b = [] then a else a @ ''/'' @ b) ps []"
  by (simp_all add: scripted_def)

lemma decimal_7: "decimal 7 = ''7''"
  by (simp add: decimal_def digits.simps)

lemmas run_simps =
  bnd_apply ret_apply try_catch_apply try_finally_apply ask_apply throw_apply
  run_git_scripted scripted_fields execAsync_def execGitSafe_def thrown_or_stdout_def
  flag_of_def strategy_of_def message_of_def mergeDir_of_def decimal_7 safeName_of_def
  safe_char_def outcome_of_def calls_of_def



lemma map_result_simps [simp]:
  "map_result f (ExecOk out) = Inr (f out)"
  "map_result f (ExecFail e) = Inl e"
  "(map_result f r = Inl e) = (r = ExecFail e)"
  "(map_result f r = Inr a) = (\<exists>out. r = ExecOk out \<and> a = f out)"
  by (auto simp: map_result_def split: exec_result.splits)

lemma bnd_execAsync_ret:
  "bnd (execAsync M c d) (\<lambda>x. ret (f x)) w =
     (map_result f (fst (exec M w d c)), snd (exec M w d c),
      [\<lparr>cwd = d, cmd = c, via_safe = False, result = fst (exec M w d c)\<rparr>])"
  by (cases "exec M w d c"; cases "fst (exec M w d c)")
     (auto simp: bnd_apply ret_apply execAsync_def run_git_def thrown_or_stdout_def)

lemma post_fetch_step: "post (fetch_step M root lo) (fetch_spec root lo)"
proof (rule postI)
  fix w r w' l assume run: "fetch_step M root lo w = (r, w', l)"
  show "fetch_spec root lo r l"
  proof (cases lo)
    case True
    then show ?thesis using run
      by (auto simp: fetch_step_def ret_apply intro: fetch_spec.intros)
  next
    case False
    then have "r = map_result (\<lambda>_. ()) (fst (exec M w root FetchOrigin))"
      "l = [logged root FetchOrigin (fst (exec M w root FetchOrigin))]"
      using run by (auto simp: fetch_step_def bnd_execAsync_ret)
    then show ?thesis using False
      by (cases "fst (exec M w root FetchOrigin)") (auto intro: fetch_spec.intros)
  qed
qed

lemma dry_run_apply:
  "try_catch (bnd (execAsync M c d) (\<lambda>stdout. ret (Some stdout))) (\<lambda>e. ret (err_stdout e)) w =
     (Inr (case fst (exec M w d c) of ExecOk out \<Rightarrow> Some out | ExecFail e \<Rightarrow> err_stdout e),
      snd (exec M w d c),
      [\<lparr>cwd = d, cmd = c, via_safe = False, result = fst (exec M w d c)\<rparr>])"
  by (cases "fst (exec M w d c)")
     (simp_all add: try_catch_apply bnd_execAsync_ret ret_apply)

lemmas run_defs =
  bnd_apply ret_apply try_catch_apply try_finally_apply ask_apply throw_apply
  execAsync_def run_git_def thrown_or_stdout_def Let_def

lemma post_preflight_step:
  "post (preflight_step M root source target lo doit) (preflight_spec root)"
proof (rule postI)
  fix w r w' l assume run: "preflight_step M root source target lo doit w = (r, w', l)"
  define ref where "ref = (if lo then target else ''origin/'' @ target)"
  obtain res1 w1 where e1: "exec M w root (MergeBase ref source) = (res1, w1)"
    by (cases "exec M w root (MergeBase ref source)")
  show "preflight_spec root r l"
  proof (cases doit)
    case False
    then show ?thesis using run
      by (auto simp: preflight_step_def ret_apply intro: preflight_spec.intros)
  next
    case True
    show ?thesis
    proof (cases res1)
      case (ExecFail e)
      then have "r = Inr None"
        "l = [\<lparr>cwd = root, cmd = MergeBase ref source, via_safe = False, result = ExecFail e\<rparr>]"
        using run True e1 [unfolded ref_def]
        by (simp_all add: preflight_step_def ref_def run_defs)
      then show ?thesis by (auto intro: preflight_spec.intros)
    next
      case (ExecOk out)
      obtain res2 w2 where e2: "exec M w1 root (MergeTree (trim out) ref source) = (res2, w2)"
        by (cases "exec M w1 root (MergeTree (trim out) ref source)")
      have "r = Inr (preflight_verdict res2)"
        "l = [\<lparr>cwd = root, cmd = MergeBase ref source, via_safe = False, result = ExecOk out\<rparr>,
              \<lparr>cwd = root, cmd = MergeTree (trim out) ref source, via_safe = False,
               result = res2\<rparr>]"
        using run True ExecOk e1 [unfolded ref_def] e2 [unfolded ref_def]
        by (auto simp: preflight_step_def ref_def run_defs preflight_verdict_def
            split: exec_result.splits option.splits if_splits)
      then show ?thesis by (auto intro: preflight_spec.intros)
    qed
  qed
qed

lemma clean_ok_Nil: "clean_ok root dir []"
  by (simp add: clean_ok_def)

lemma clean_ok_removed: "clean_ok root dir [logged root (WorktreeRemoveForce dir) (ExecOk out)]"
  by (simp add: clean_ok_def)

lemma post_worktree_step:
  "post (worktree_step M root source target lo) (worktree_spec root)"
proof (rule postI)
  fix w r w' l assume run: "worktree_step M root source target lo w = (r, w', l)"
  define dir where "dir = mergeDir_of M root source (date_now M w)"
  define ref where "ref = (if lo then target else ''origin/'' @ target)"
  show "worktree_spec root r l"
  proof (cases "existsSync M w dir")
    case False
    then have "r = map_result (\<lambda>_. dir) (fst (exec M w root (WorktreeAddDetach dir ref)))"
      "l = [\<lparr>cwd = root, cmd = WorktreeAddDetach dir ref, via_safe = False,
             result = fst (exec M w root (WorktreeAddDetach dir ref))\<rparr>]"
      using run
      by (auto simp: worktree_step_def dir_def ref_def Let_def bnd_apply [of "ask f" for f]
          bnd_apply [of "ret x" for x] ask_apply ret_apply bnd_execAsync_ret)
    then show ?thesis
      by (cases "fst (exec M w root (WorktreeAddDetach dir ref))")
         (auto intro: worktree_spec.add_failed [OF clean_ok_Nil, simplified]
            worktree_spec.added [OF clean_ok_Nil, simplified])
  next
    case True
    show ?thesis
    proof (cases "fst (exec M w root (WorktreeRemoveForce dir))")
      case (ExecFail e)
      then have "r = Inl e"
        "l = [\<lparr>cwd = root, cmd = WorktreeRemoveForce dir, via_safe = False, result = ExecFail e\<rparr>]"
        using run True
        by (auto simp: worktree_step_def dir_def ref_def Let_def bnd_apply [of "ask f" for f]
            bnd_apply [of "bnd m f" for m f] ask_apply ret_apply bnd_execAsync_ret)
      then show ?thesis by (auto intro: worktree_spec.intros)
    next
      case (ExecOk out)
      define w1 where "w1 = snd (exec M w root (WorktreeRemoveForce dir))"
      have "r = map_result (\<lambda>_. dir) (fst (exec M w1 root (WorktreeAddDetach dir ref)))"
        "l = [\<lparr>cwd = root, cmd = WorktreeRemoveForce dir, via_safe = False, result = ExecOk out\<rparr>]
             @ [\<lparr>cwd = root, cmd = WorktreeAddDetach dir ref, via_safe = False,
                 result = fst (exec M w1 root (WorktreeAddDetach dir ref))\<rparr>]"
        using run True ExecOk
        by (auto simp: worktree_step_def dir_def ref_def w1_def Let_def bnd_apply [of "ask f" for f]
            bnd_apply [of "bnd m f" for m f] ask_apply ret_apply bnd_execAsync_ret)
      then show ?thesis
        by (cases "fst (exec M w1 root (WorktreeAddDetach dir ref))")
           (auto intro: worktree_spec.add_failed [OF clean_ok_removed, simplified]
              worktree_spec.added [OF clean_ok_removed, simplified])
    qed
  qed
qed

lemma post_conj: "post m Q1 \<Longrightarrow> post m Q2 \<Longrightarrow> post m (\<lambda>r l. Q1 r l \<and> Q2 r l)"
  by (simp add: post_def)

lemma no_throw_ret: "no_throw (ret a)"
  by (simp add: no_throw_def post_ret)

lemma no_throw_bnd: "no_throw m \<Longrightarrow> (\<And>a. no_throw (f a)) \<Longrightarrow> no_throw (bnd m f)"
  unfolding no_throw_def
  by (rule post_weaken [OF post_bnd]) (auto simp: seq_def)

lemma no_throw_try_catch:
  assumes "\<And>e. no_throw (h e)"
  shows "no_throw (try_catch m h)"
proof -
  have p: "post m (\<lambda>r l. True)" by (simp add: post_def)
  have q: "\<And>e. post (h e) (\<lambda>r l. \<exists>a. r = Inr a)"
    using assms by (simp add: no_throw_def)
  show ?thesis
    unfolding no_throw_def
    by (rule post_weaken [OF post_try_catch [OF p q]]) (auto simp: handled_def)
qed

lemma no_throw_if:
  "(b \<Longrightarrow> no_throw m1) \<Longrightarrow> (\<not> b \<Longrightarrow> no_throw m2) \<Longrightarrow> no_throw (if b then m1 else m2)"
  by simp

lemma no_throw_option:
  "no_throw m1 \<Longrightarrow> (\<And>x. no_throw (m2 x)) \<Longrightarrow> no_throw (case v of None \<Rightarrow> m1 | Some x \<Rightarrow> m2 x)"
  by (cases v) simp_all

lemma no_throw_detect_local: "no_throw (detect_local M root names)"
  by (induction names) (auto intro!: no_throw_ret no_throw_try_catch)

lemmas no_throw_intros =
  no_throw_ret no_throw_bnd no_throw_try_catch no_throw_if no_throw_option no_throw_detect_local

lemma post_resolve_localOnly: "post (resolve_localOnly M options) setup_spec"
proof -
  have "no_throw (resolve_localOnly M options)"
    unfolding resolve_localOnly_def hasRemote_def by (intro no_throw_intros)
  moreover have "calls_sat (\<lambda>c. is_probe (cmd c)) (resolve_localOnly M options)"
    unfolding resolve_localOnly_def hasRemote_def
    by (intro calls_sat_intros; simp add: is_probe_def)
  ultimately show ?thesis
    by (simp add: no_throw_def calls_sat_def post_def setup_spec_def)
qed

lemma post_resolve_targetBranch: "post (resolve_targetBranch M options) setup_spec"
proof -
  have "no_throw (resolve_targetBranch M options)"
    unfolding resolve_targetBranch_def detectTargetBranch_def hasRemote_def
    by (intro no_throw_intros)
  moreover have "calls_sat (\<lambda>c. is_probe (cmd c)) (resolve_targetBranch M options)"
    unfolding resolve_targetBranch_def detectTargetBranch_def hasRemote_def
    by (intro calls_sat_intros; simp add: is_probe_def)
  ultimately show ?thesis
    by (simp add: no_throw_def calls_sat_def post_def setup_spec_def)
qed

lemma post_sync_step:
  "post (sync_step M root target doSync lo doPush mr) sync_spec"
proof -
  have "no_throw (sync_step M root target doSync lo doPush mr)"
    unfolding sync_step_def syncLocalBranch_def syncLocalBranchFromCommit_def
    by (intro no_throw_intros)
  moreover have "calls_sat (\<lambda>c. is_sync_command (cmd c)) (sync_step M root target doSync lo doPush mr)"
    unfolding sync_step_def syncLocalBranch_def syncLocalBranchFromCommit_def
    by (intro calls_sat_intros; simp add: is_sync_command_def)
  ultimately show ?thesis
    by (simp add: no_throw_def calls_sat_def post_def sync_spec_def)
qed

lemma returns_only_ret: "V a \<Longrightarrow> returns_only V (ret a)"
  by (simp add: returns_only_def post_ret)

lemma returns_only_bnd: "(\<And>a. returns_only V (f a)) \<Longrightarrow> returns_only V (bnd m f)"
proof -
  assume f: "\<And>a. returns_only V (f a)"
  have p: "post m (\<lambda>r l. True)" by (simp add: post_def)
  have q: "\<And>a. post (f a) (\<lambda>r l. \<forall>b. r = Inr b \<longrightarrow> V b)"
    using f by (simp add: returns_only_def)
  show ?thesis
    unfolding returns_only_def by (rule post_weaken [OF post_bnd [OF p q]]) (auto simp: seq_def)
qed

lemma returns_only_try_catch:
  "returns_only V m \<Longrightarrow> (\<And>e. returns_only V (h e)) \<Longrightarrow> returns_only V (try_catch m h)"
  unfolding returns_only_def
  by (rule post_weaken [OF post_try_catch]) (auto simp: handled_def)

lemma returns_only_if:
  "(b \<Longrightarrow> returns_only V m1) \<Longrightarrow> (\<not> b \<Longrightarrow> returns_only V m2) \<Longrightarrow>
   returns_only V (if b then m1 else m2)"
  by simp

lemma ok_calls_ret: "ok_calls P (ret a)"
  by (simp add: ok_calls_def post_ret)

lemma ok_calls_bnd: "ok_calls P m \<Longrightarrow> (\<And>a. ok_calls P (f a)) \<Longrightarrow> ok_calls P (bnd m f)"
  unfolding ok_calls_def
  by (rule post_weaken [OF post_bnd]) (auto simp: seq_def)

lemma ok_calls_weak: "calls_sat P m \<Longrightarrow> ok_calls P m"
  by (simp add: ok_calls_def calls_sat_def post_def)

lemma ok_calls_execGitSafe:
  "(\<And>out. P \<lparr>cwd = dir, cmd = c, via_safe = True, result = ExecOk out\<rparr>)
   \<Longrightarrow> ok_calls P (execGitSafe M c dir root)"
  unfolding ok_calls_def execGitSafe_def
  by (auto intro!: post_throw post_run_git simp: thrown_or_stdout_def split: exec_result.splits)

lemma ok_calls_strategy:
  "ok_calls P m1 \<Longrightarrow> ok_calls P m2 \<Longrightarrow> ok_calls P (case v of Squash \<Rightarrow> m1 | Merge \<Rightarrow> m2)"
  by (cases v) simp_all

lemma post_merge_try:
  "post (merge_try M root source target strategy doPush lo message dir)
     (\<lambda>r l. (\<forall>c \<in> set l. worktree_command (cmd c))
        \<and> (\<forall>mr. r = Inr mr \<longrightarrow>
              success mr \<and> commitHash mr \<noteq> None
              \<and> (\<forall>c \<in> set l. decisive (cmd c) \<longrightarrow> succeeded (result c))))"
proof -
  have a: "calls_sat (\<lambda>c. worktree_command (cmd c))
             (merge_try M root source target strategy doPush lo message dir)"
    unfolding merge_try_def
    by (intro calls_sat_intros; simp add: worktree_command_def)
  have b: "returns_only (\<lambda>mr. success mr \<and> commitHash mr \<noteq> None)
             (merge_try M root source target strategy doPush lo message dir)"
    unfolding merge_try_def
    by (intro returns_only_bnd returns_only_ret) simp
  have c: "ok_calls (\<lambda>c. decisive (cmd c) \<longrightarrow> succeeded (result c))
             (merge_try M root source target strategy doPush lo message dir)"
    unfolding merge_try_def
    by (intro ok_calls_bnd ok_calls_ret ok_calls_strategy ok_calls_execGitSafe
          ok_calls_weak [of _ "if b then m1 else m2" for b m1 m2]
          calls_sat_intros; simp add: succeeded_def decisive_def)
  show ?thesis
    using a b c by (simp add: calls_sat_def returns_only_def ok_calls_def post_def)
qed

lemma post_merge_catch:
  "post (merge_catch M root strategy dir e)
     (\<lambda>r l. (\<forall>c \<in> set l. worktree_command (cmd c)) \<and> (\<exists>mr. r = Inr mr \<and> \<not> success mr))"
proof -
  have a: "calls_sat (\<lambda>c. worktree_command (cmd c)) (merge_catch M root strategy dir e)"
    unfolding merge_catch_def Let_def
    by (intro calls_sat_intros; simp add: worktree_command_def)
  have b: "returns_only (\<lambda>mr. \<not> success mr) (merge_catch M root strategy dir e)"
    unfolding merge_catch_def Let_def
    by (intro returns_only_if returns_only_bnd returns_only_ret; simp)
  have c: "no_throw (merge_catch M root strategy dir e)"
    unfolding merge_catch_def Let_def
    by (intro no_throw_intros)
  show ?thesis
    using a b c unfolding calls_sat_def returns_only_def no_throw_def post_def by blast
qed

lemma post_remove_worktree:
  "post (remove_worktree M root dir)
     (\<lambda>r l. r = Inr () \<and> (\<exists>res. l = [\<lparr>cwd = root, cmd = WorktreeRemoveForce dir, via_safe = False,
                                       result = res\<rparr>]))"
proof (rule postI)
  fix w r w' l assume run: "remove_worktree M root dir w = (r, w', l)"
  obtain res w1 where e: "exec M w root (WorktreeRemoveForce dir) = (res, w1)"
    by (cases "exec M w root (WorktreeRemoveForce dir)")
  have "r = Inr ()"
    "l = [\<lparr>cwd = root, cmd = WorktreeRemoveForce dir, via_safe = False, result = res\<rparr>]"
    using run e by (cases res; simp add: remove_worktree_def run_defs)+
  then show "r = Inr () \<and> (\<exists>res. l = [\<lparr>cwd = root, cmd = WorktreeRemoveForce dir,
      via_safe = False, result = res\<rparr>])" by blast
qed

lemma post_merge_step:
  "post (merge_step M root source target strategy doPush lo message dir) (merge_spec root dir)"
  unfolding merge_step_def
proof (rule post_weaken
        [OF post_try_finally [OF post_try_catch [OF post_merge_try post_merge_catch]
              post_remove_worktree]])
  fix r :: "exec_error + MergeBranchResult" and l
  assume "finished
        (handled
          (\<lambda>r l. (\<forall>c\<in>set l. worktree_command (cmd c)) \<and>
                  (\<forall>mr. r = Inr mr \<longrightarrow>
                        success mr \<and> commitHash mr \<noteq> None \<and>
                        (\<forall>c\<in>set l. decisive (cmd c) \<longrightarrow> succeeded (result c))))
          (\<lambda>e r l. (\<forall>c\<in>set l. worktree_command (cmd c)) \<and> (\<exists>mr. r = Inr mr \<and> \<not> success mr)))
        (\<lambda>r l. r = Inr () \<and>
                (\<exists>res. l = [\<lparr>cwd = root, cmd = WorktreeRemoveForce dir, via_safe = False,
                               result = res\<rparr>]))
        r l"
  then obtain l1 res where l: "l = l1 @ [\<lparr>cwd = root, cmd = WorktreeRemoveForce dir,
        via_safe = False, result = res\<rparr>]"
    and h: "handled
          (\<lambda>r l. (\<forall>c\<in>set l. worktree_command (cmd c)) \<and>
                  (\<forall>mr. r = Inr mr \<longrightarrow>
                        success mr \<and> commitHash mr \<noteq> None \<and>
                        (\<forall>c\<in>set l. decisive (cmd c) \<longrightarrow> succeeded (result c))))
          (\<lambda>e r l. (\<forall>c\<in>set l. worktree_command (cmd c)) \<and> (\<exists>mr. r = Inr mr \<and> \<not> success mr))
          r l1"
    unfolding finished_def by auto
  from h have "\<exists>mr. r = Inr mr \<and> (\<forall>c\<in>set l1. worktree_command (cmd c))
    \<and> (success mr \<longrightarrow> commitHash mr \<noteq> None)
    \<and> ((\<exists>c \<in> set l1. decisive (cmd c) \<and> \<not> succeeded (result c)) \<longrightarrow> \<not> success mr)"
    unfolding handled_def
  proof (elim disjE exE conjE)
    fix a assume "r = Inr a" "\<forall>c\<in>set l1. worktree_command (cmd c)"
      "\<forall>mr. Inr a = Inr mr \<longrightarrow> success mr \<and> commitHash mr \<noteq> None \<and>
         (\<forall>c\<in>set l1. decisive (cmd c) \<longrightarrow> succeeded (result c))"
    then show ?thesis by auto
  next
    fix e la lb mr
    assume "l1 = la @ lb" "\<forall>c\<in>set la. worktree_command (cmd c)"
      "\<forall>c\<in>set lb. worktree_command (cmd c)" "r = Inr mr" "\<not> success mr"
    then show ?thesis by auto
  qed
  with l show "merge_spec root dir r l" by (auto intro: merge_spec.intros)
qed

lemma post_returns: "post (ret a) (returns a)"
  by (simp add: post_ret returns_def)

lemma post_steps:
  "post (merge_steps_1_to_7 M options lo t) (steps_spec (workspaceRoot options) lo)"
  unfolding merge_steps_1_to_7_def steps_spec_def Let_def
proof (intro post_bnd post_fetch_step post_preflight_step)
  fix u :: unit and early :: "MergeBranchResult option"
  show "post
      (case early of
         None \<Rightarrow>
           bnd (worktree_step M (workspaceRoot options) (sourceBranch options) t lo)
             (\<lambda>mergeDir.
                bnd (merge_step M (workspaceRoot options) (sourceBranch options) t
                       (strategy_of options) (flag_of (autoPush options)) lo
                       (message_of options t) mergeDir)
                  (\<lambda>mergeResult. ret (False, mergeResult)))
       | Some r \<Rightarrow> ret (True, r))
      (case early of
         None \<Rightarrow>
           seq (worktree_spec (workspaceRoot options))
             (\<lambda>dir. seq (merge_spec (workspaceRoot options) dir) (\<lambda>mr. returns (False, mr)))
       | Some r \<Rightarrow> returns (True, r))"
    by (cases early)
       (auto intro!: post_bnd post_worktree_step post_merge_step post_returns)
qed

lemma post_mergeBranch: "post (mergeBranch M options) (whole_spec (workspaceRoot options))"
  unfolding mergeBranch_def whole_spec_def
proof (intro post_bnd post_resolve_localOnly post_resolve_targetBranch post_steps)
  fix lo :: bool and t :: string and a :: "bool \<times> MergeBranchResult"
  obtain returned mr where a: "a = (returned, mr)" by (cases a)
  show "post
      (case a of
         (returned, mergeResult) \<Rightarrow>
           if returned then ret mergeResult
           else bnd (sync_step M (workspaceRoot options) t (flag_of (syncLocal options)) lo
                       (flag_of (autoPush options)) mergeResult)
                  (\<lambda>_. ret mergeResult))
      (case a of
         (returned, mr) \<Rightarrow> if returned then returns mr else seq sync_spec (\<lambda>_. returns mr))"
    unfolding a
    by (cases returned) (auto intro!: post_bnd post_sync_step post_returns)
qed

lemma seqE:
  assumes "seq Q1 Q2 r l"
  obtains (thrown) e where "r = Inl e" "Q1 (Inl e) l"
  | (went_on) a l1 l2 where "l = l1 @ l2" "Q1 (Inr a) l1" "Q2 a r l2"
  using assms unfolding seq_def by blast

lemma fetch_spec_ok:
  assumes "fetch_spec root lo (Inr u) l"
  shows "fetch_ok root l"
  using assms by (cases rule: fetch_spec.cases) (auto simp: fetch_ok_def)

lemma preflight_spec_pass:
  assumes "preflight_spec root (Inr None) l"
  shows "pre_pass root l"
  using assms by (cases rule: preflight_spec.cases) (auto simp: pre_pass_def)

lemma tail_flat:
  assumes t: "seq (worktree_spec root) (\<lambda>dir. seq (merge_spec root dir) (\<lambda>mr. returns (False, mr)))
                rs ls"
    and f: "fetch_ok root fetch" and p: "pre_pass root pre"
  shows "steps_shape root rs (fetch @ pre @ ls)"
  using t
proof (cases rule: seqE)
  case (thrown e)
  from thrown(2) show ?thesis
  proof (cases rule: worktree_spec.cases)
    case (cleanup_failed dir)
    then show ?thesis using thrown(1) f p by (simp add: steps_shape.cleanup_throws)
  next
    case (add_failed dir clean ref)
    then show ?thesis using thrown(1) f p by (simp add: steps_shape.add_throws)
  qed
next
  case (went_on dir l1 l2)
  from went_on(3) obtain mr m1 m2 where m: "l2 = m1 @ m2" "merge_spec root dir (Inr mr) m1"
    "returns (False, mr) rs m2"
    by (cases rule: seqE) (auto elim: merge_spec.cases)
  from m(3) have rs: "rs = Inr (False, mr)" "m2 = []" by (simp_all add: returns_def)
  from went_on(2) obtain clean ref out where w: "clean_ok root dir clean"
    "l1 = clean @ [logged root (WorktreeAddDetach dir ref) (ExecOk out)]"
    by (cases rule: worktree_spec.cases) auto
  from m(2) obtain k res where k: "m1 = k @ [logged root (WorktreeRemoveForce dir) res]"
    "\<forall>c \<in> set k. worktree_command (cmd c)" "success mr \<longrightarrow> commitHash mr \<noteq> None"
    "(\<exists>c \<in> set k. decisive (cmd c) \<and> \<not> succeeded (result c)) \<longrightarrow> \<not> success mr"
    by (cases rule: merge_spec.cases) auto
  have "steps_shape root (Inr (False, mr))
     (fetch @ pre @ clean @ [logged root (WorktreeAddDetach dir ref) (ExecOk out)] @ k
        @ [logged root (WorktreeRemoveForce dir) res])"
    using f p w(1) k(2,3,4) by (rule steps_shape.merge_attempted)
  then show ?thesis using went_on(1) m(1) rs w(2) k(1) by simp
qed

lemma steps_flat:
  assumes "steps_spec root lo rs ls"
  shows "steps_shape root rs ls"
  using assms unfolding steps_spec_def
proof (cases rule: seqE)
  case (thrown e)
  from thrown(2) show ?thesis using thrown(1)
    by (cases rule: fetch_spec.cases) (simp add: steps_shape.fetch_throws)
next
  case (went_on u fetch rest)
  have f: "fetch_ok root fetch" using went_on(2) by (rule fetch_spec_ok)
  from went_on(3) show ?thesis
  proof (cases rule: seqE)
    case (thrown e)
    from thrown(2) show ?thesis by (cases rule: preflight_spec.cases)
  next
    case inner: (went_on early pre tail)
    show ?thesis
    proof (cases early)
      case None
      have p: "pre_pass root pre" using inner(2) None by (simp add: preflight_spec_pass)
      have "steps_shape root rs (fetch @ pre @ tail)"
        using inner(3) None f p by (simp add: tail_flat)
      then show ?thesis using went_on(1) inner(1) by simp
    next
      case (Some v)
      then have rs: "rs = Inr (True, v)" "tail = []" using inner(3) by (simp_all add: returns_def)
      from inner(2) Some obtain a b out base res where
        "pre = [logged root (MergeBase a b) (ExecOk out), logged root (MergeTree base a b) res]"
        "preflight_verdict res = Some v"
        by (cases rule: preflight_spec.cases) auto
      then show ?thesis using went_on(1) inner(1) rs f
        by (simp add: steps_shape.rejected)
    qed
  qed
qed

lemma run_flat:
  assumes "whole_spec root r l"
  shows "run_shape root r l"
  using assms unfolding whole_spec_def
proof (cases rule: seqE)
  case (thrown e)
  then show ?thesis by (simp add: setup_spec_def)
next
  case first: (went_on lo p1 rest1)
  from first(3) show ?thesis
  proof (cases rule: seqE)
    case (thrown e)
    then show ?thesis by (simp add: setup_spec_def)
  next
    case second: (went_on t p2 rest2)
    have probes: "\<forall>c \<in> set (p1 @ p2). is_probe (cmd c)"
      using first(2) second(2) by (auto simp: setup_spec_def)
    from second(3) show ?thesis
    proof (cases rule: seqE)
      case (thrown e)
      have "steps_shape root (Inl e) rest2" using thrown(2) by (rule steps_flat)
      with probes have "run_shape root (Inl e) ((p1 @ p2) @ rest2)" by (rule run_shape.run_throws)
      then show ?thesis using first(1) second(1) thrown(1) by simp
    next
      case steps: (went_on a ls rest3)
      obtain returned mr where a: "a = (returned, mr)" by (cases a)
      have sh: "steps_shape root (Inr (returned, mr)) ls"
        using steps(2) a by (simp add: steps_flat)
      show ?thesis
      proof (cases returned)
        case True
        then have "r = Inr mr" "rest3 = []" using steps(3) a by (simp_all add: returns_def)
        moreover have sh': "steps_shape root (Inr (True, mr)) ls" using sh True by simp
        have "run_shape root (Inr mr) ((p1 @ p2) @ ls)"
          using probes sh' by (rule run_shape.run_returns_early)
        ultimately show ?thesis using first(1) second(1) steps(1) by simp
      next
        case False
        then have "seq sync_spec (\<lambda>_. returns mr) r rest3" using steps(3) a by simp
        then have "r = Inr mr" "\<forall>c \<in> set rest3. is_sync_command (cmd c)"
          by (auto simp: seq_def sync_spec_def returns_def)
        moreover have sh': "steps_shape root (Inr (False, mr)) ls" using sh False by simp
        from calculation(2) have "run_shape root (Inr mr) ((p1 @ p2) @ ls @ rest3)"
          using probes sh' by (intro run_shape.run_completes)
        ultimately show ?thesis using first(1) second(1) steps(1) by simp
      qed
    qed
  qed
qed

lemma mergeBranch_run_shape:
  "run_shape (workspaceRoot options) (outcome_of (mergeBranch M options) w)
     (calls_of (mergeBranch M options) w)"
  using post_mergeBranch [of M options] by (simp add: post_def run_flat)

lemma probe_kinds:
  "is_probe c \<Longrightarrow>
     c \<noteq> FetchOrigin \<and> \<not> is_merge_base c \<and> \<not> is_merge_tree c \<and> \<not> is_worktree_add c
     \<and> \<not> is_worktree_remove c \<and> \<not> decisive c \<and> \<not> worktree_command c \<and> \<not> is_sync_command c"
  by (cases c) (simp_all add: is_probe_def is_merge_base_def is_merge_tree_def is_worktree_add_def
      is_worktree_remove_def decisive_def worktree_command_def is_sync_command_def)

lemma worktree_kinds:
  "worktree_command c \<Longrightarrow>
     c \<noteq> FetchOrigin \<and> \<not> is_merge_base c \<and> \<not> is_merge_tree c \<and> \<not> is_worktree_add c
     \<and> \<not> is_worktree_remove c \<and> \<not> is_sync_command c \<and> \<not> is_probe c"
  by (cases c) (simp_all add: is_probe_def is_merge_base_def is_merge_tree_def is_worktree_add_def
      is_worktree_remove_def decisive_def worktree_command_def is_sync_command_def)

lemma sync_kinds:
  "is_sync_command c \<Longrightarrow>
     c \<noteq> FetchOrigin \<and> \<not> is_merge_base c \<and> \<not> is_merge_tree c \<and> \<not> is_worktree_add c
     \<and> \<not> is_worktree_remove c \<and> \<not> decisive c \<and> \<not> worktree_command c \<and> \<not> is_probe c"
  by (cases c) (simp_all add: is_probe_def is_merge_base_def is_merge_tree_def is_worktree_add_def
      is_worktree_remove_def decisive_def worktree_command_def is_sync_command_def)

lemma kind_simps [simp]:
  "\<not> is_merge_base FetchOrigin" "\<not> is_merge_tree FetchOrigin" "\<not> is_worktree_add FetchOrigin"
  "\<not> is_worktree_remove FetchOrigin" "\<not> decisive FetchOrigin"
  "is_merge_base (MergeBase a b)" "\<not> is_merge_tree (MergeBase a b)"
  "\<not> is_worktree_add (MergeBase a b)" "\<not> is_worktree_remove (MergeBase a b)"
  "\<not> decisive (MergeBase a b)"
  "\<not> is_merge_base (MergeTree base a b)" "is_merge_tree (MergeTree base a b)"
  "\<not> is_worktree_add (MergeTree base a b)" "\<not> is_worktree_remove (MergeTree base a b)"
  "\<not> decisive (MergeTree base a b)"
  "\<not> is_merge_base (WorktreeAddDetach d r)" "\<not> is_merge_tree (WorktreeAddDetach d r)"
  "is_worktree_add (WorktreeAddDetach d r)" "\<not> is_worktree_remove (WorktreeAddDetach d r)"
  "\<not> decisive (WorktreeAddDetach d r)"
  "\<not> is_merge_base (WorktreeRemoveForce d)" "\<not> is_merge_tree (WorktreeRemoveForce d)"
  "\<not> is_worktree_add (WorktreeRemoveForce d)" "is_worktree_remove (WorktreeRemoveForce d)"
  "\<not> decisive (WorktreeRemoveForce d)"
  by (simp_all add: is_merge_base_def is_merge_tree_def is_worktree_add_def
      is_worktree_remove_def decisive_def)

lemma succeeded_simps [simp]: "succeeded (ExecOk out)" "\<not> succeeded (ExecFail e)"
  by (simp_all add: succeeded_def)

lemmas part_defs = fetch_ok_def pre_pass_def clean_ok_def












lemma shape_preflight_rejects:
  assumes "run_shape root r l" "c \<in> set l" "is_merge_tree (cmd c)"
    "preflight_verdict (result c) = Some v"
  shows "r = Inr v \<and> (\<forall>d \<in> set l. \<not> is_worktree_add (cmd d))"
  using assms
  by (cases rule: run_shape.cases; elim steps_shape.cases)
     (auto simp: part_defs dest: probe_kinds worktree_kinds sync_kinds)

lemma pre_pass_failed_base:
  assumes "pre_pass root pre" "c \<in> set pre" "is_merge_base (cmd c)" "\<not> succeeded (result c)"
  shows "pre = [c]"
  using assms by (auto simp: pre_pass_def)

lemma fetch_ok_no_base: "fetch_ok root fetch \<Longrightarrow> c \<in> set fetch \<Longrightarrow> \<not> is_merge_base (cmd c)"
  by (auto simp: fetch_ok_def)

lemma clean_ok_no_base: "clean_ok root dir clean \<Longrightarrow> c \<in> set clean \<Longrightarrow> \<not> is_merge_base (cmd c)"
  by (auto simp: clean_ok_def)

lemma clean_ok_head:
  assumes "clean_ok root dir clean"
  shows "\<exists>d rest. clean @ x # xs = d # rest
     \<and> (d = x \<or> is_worktree_remove (cmd d))"
  using assms by (auto simp: clean_ok_def)

lemma steps_merge_base:
  assumes "steps_shape root rs ls" "c \<in> set ls" "is_merge_base (cmd c)"
    "\<not> succeeded (result c)"
  shows "\<exists>before d rest. ls = before @ c # d # rest
     \<and> (is_worktree_remove (cmd d) \<or> is_worktree_add (cmd d))"
  using assms(1)
proof (cases rule: steps_shape.cases)
  case (fetch_throws e)
  then show ?thesis using assms(2,3) by simp
next
  case (rejected fetch res v a b out base)
  then show ?thesis using assms(2,3,4) by (auto dest: fetch_ok_no_base)
next
  case (cleanup_throws fetch pre e dir)
  then have "c \<in> set pre" using assms(2,3) by (auto dest: fetch_ok_no_base)
  with cleanup_throws(4) have "pre = [c]" using assms(3,4) by (rule pre_pass_failed_base)
  then have "ls = fetch @ c # logged root (WorktreeRemoveForce dir) (ExecFail e) # []"
    using cleanup_throws(2) by simp
  then show ?thesis by (intro exI conjI) (assumption, simp)
next
  case (add_throws fetch pre dir clean e ref)
  then have "c \<in> set pre" using assms(2,3)
    by (auto dest: fetch_ok_no_base clean_ok_no_base)
  with add_throws(4) have pre: "pre = [c]" using assms(3,4) by (rule pre_pass_failed_base)
  obtain d rest where d: "clean @ logged root (WorktreeAddDetach dir ref) (ExecFail e) # [] = d # rest"
    "d = logged root (WorktreeAddDetach dir ref) (ExecFail e) \<or> is_worktree_remove (cmd d)"
    using clean_ok_head [OF add_throws(5)] by blast
  have "ls = fetch @ c # d # rest" using add_throws(2) pre d(1) by simp
  moreover have "is_worktree_remove (cmd d) \<or> is_worktree_add (cmd d)" using d(2) by auto
  ultimately show ?thesis by blast
next
  case (merge_attempted fetch pre dir clean l1 mr ref out res)
  then have "c \<in> set pre" using assms(2,3)
    by (auto dest: fetch_ok_no_base clean_ok_no_base worktree_kinds)
  with merge_attempted(4) have pre: "pre = [c]" using assms(3,4)
    by (rule pre_pass_failed_base)
  obtain d rest where d:
    "clean @ logged root (WorktreeAddDetach dir ref) (ExecOk out)
       # (l1 @ [logged root (WorktreeRemoveForce dir) res]) = d # rest"
    "d = logged root (WorktreeAddDetach dir ref) (ExecOk out) \<or> is_worktree_remove (cmd d)"
    using clean_ok_head [OF merge_attempted(5)] by blast
  have "ls = fetch @ c # d # rest" using merge_attempted(2) pre d(1) by simp
  moreover have "is_worktree_remove (cmd d) \<or> is_worktree_add (cmd d)" using d(2) by auto
  ultimately show ?thesis by blast
qed

lemma shape_merge_base_failure:
  assumes "run_shape root r l" "c \<in> set l" "is_merge_base (cmd c)" "\<not> succeeded (result c)"
  shows "\<exists>before d rest. l = before @ c # d # rest
     \<and> (is_worktree_remove (cmd d) \<or> is_worktree_add (cmd d))"
proof -
  from assms(1) obtain probes ls sync rs where l: "l = probes @ ls @ sync"
    "\<forall>c \<in> set probes. is_probe (cmd c)" "\<forall>c \<in> set sync. is_sync_command (cmd c)"
    "steps_shape root rs ls"
  proof (cases rule: run_shape.cases)
    case (run_throws probes e ls)
    then show ?thesis using that [of probes ls "[]"] by simp
  next
    case (run_returns_early probes mr ls)
    then show ?thesis using that [of probes ls "[]"] by simp
  next
    case (run_completes probes mr ls sync)
    then show ?thesis using that [of probes ls sync] by simp
  qed
  have "c \<in> set ls" using assms(2,3) l(1,2,3) by (auto dest: probe_kinds sync_kinds)
  with l(4) obtain before d rest where
    "ls = before @ c # d # rest" "is_worktree_remove (cmd d) \<or> is_worktree_add (cmd d)"
    using assms(3,4) steps_merge_base by blast
  then have "l = (probes @ before) @ c # d # (rest @ sync)" using l(1) by simp
  then show ?thesis using \<open>is_worktree_remove (cmd d) \<or> is_worktree_add (cmd d)\<close> by blast
qed

lemma preflight_verdict_markers:
  "dry_run_stdout res = Some out \<Longrightarrow> str_includes out ''<<<<<<<'' \<Longrightarrow>
   preflight_verdict res = Some (preflight_result out)"
  by (simp add: preflight_verdict_def dry_run_stdout_def)

lemma preflight_verdict_Some:
  "preflight_verdict res = Some v \<Longrightarrow>
   \<exists>out. dry_run_stdout res = Some out \<and> str_includes out ''<<<<<<<'' \<and> v = preflight_result out"
  by (auto simp: preflight_verdict_def dry_run_stdout_def split: option.splits if_splits)

text \<open>
  C5. When the dry run of the pre-flight check (\<open>git merge-tree\<close>) prints conflict markers,
  \<open>mergeBranch\<close> returns \<open>{ success: false, hasConflict: true, conflictFiles }\<close> (the files
  named on the \<open>+++ b/\<close> lines, or \<open>undefined\<close> when there are none) and never runs \<open>git
  worktree add\<close>. When \<open>git merge-base\<close> fails, the call goes on: the next command it runs is
  the leftover cleanup or \<open>worktree add\<close> of step 3.
\<close>

theorem preflight_conflict_rejects_before_worktree:
  "(\<forall>c \<in> set (calls_of (mergeBranch M options) w). \<forall>out.
      is_merge_tree (cmd c) \<and> dry_run_stdout (result c) = Some out
        \<and> str_includes out ''<<<<<<<''
      \<longrightarrow> outcome_of (mergeBranch M options) w = Inr (preflight_result out)
          \<and> success (preflight_result out) = False
          \<and> hasConflict (preflight_result out) = True
          \<and> conflictFiles (preflight_result out)
              = (if match_all 0 ''+++ b/'' out = [] then None
                 else Some (match_all 0 ''+++ b/'' out))
          \<and> (\<forall>d \<in> set (calls_of (mergeBranch M options) w). \<not> is_worktree_add (cmd d)))
   \<and> (\<forall>c \<in> set (calls_of (mergeBranch M options) w).
        is_merge_base (cmd c) \<and> \<not> succeeded (result c)
        \<longrightarrow> (\<exists>before d rest.
               calls_of (mergeBranch M options) w = before @ c # d # rest
               \<and> (is_worktree_remove (cmd d) \<or> is_worktree_add (cmd d))))"
proof (intro conjI ballI allI impI)
  fix c out
  assume c: "c \<in> set (calls_of (mergeBranch M options) w)"
    and m: "is_merge_tree (cmd c) \<and> dry_run_stdout (result c) = Some out
            \<and> str_includes out ''<<<<<<<''"
  then have v: "preflight_verdict (result c) = Some (preflight_result out)"
    by (simp add: preflight_verdict_markers)
  from shape_preflight_rejects [OF mergeBranch_run_shape [where M = M and options = options and w = w] c _ v] m
  show "outcome_of (mergeBranch M options) w = Inr (preflight_result out)"
    and "\<And>d. d \<in> set (calls_of (mergeBranch M options) w) \<Longrightarrow> \<not> is_worktree_add (cmd d)"
    by simp_all
  show "success (preflight_result out) = False" "hasConflict (preflight_result out) = True"
    "conflictFiles (preflight_result out)
       = (if match_all 0 ''+++ b/'' out = [] then None else Some (match_all 0 ''+++ b/'' out))"
    by (simp_all add: preflight_result_def Let_def)
next
  fix c
  assume "c \<in> set (calls_of (mergeBranch M options) w)"
    and "is_merge_base (cmd c) \<and> \<not> succeeded (result c)"
  then show "\<exists>before d rest.
      calls_of (mergeBranch M options) w = before @ c # d # rest
      \<and> (is_worktree_remove (cmd d) \<or> is_worktree_add (cmd d))"
    using shape_merge_base_failure [OF mergeBranch_run_shape [where M = M and options = options and w = w], of c] by simp
qed

theorem preflight_conflict_rejects_before_worktree_witness:
  "calls_of (mergeBranch (scripted conflicting) preflight_options) () =
     [logged ''/repo'' FetchOrigin (ExecOk []),
      logged ''/repo'' (MergeBase ''origin/main'' ''feature'') (ExecOk ''b1''),
      logged ''/repo'' (MergeTree ''b1'' ''origin/main'' ''feature'')
        (ExecOk (''+++ b/a.c'' @ [CHR 0x0A] @ ''<<<<<<< .our''))]
   \<and> outcome_of (mergeBranch (scripted conflicting) preflight_options) () =
     Inr \<lparr>success = False, commitHash = None, hasConflict = True,
          error = Some ''Pre-flight: merge conflicts detected'',
          conflictFiles = Some [''a.c'']\<rparr>
   \<and> take 3 (calls_of (mergeBranch (scripted unrelated) preflight_options) ()) =
     [logged ''/repo'' FetchOrigin (ExecOk []),
      logged ''/repo'' (MergeBase ''origin/main'' ''feature'') (failure ''no base''),
      logged ''/repo''
        (WorktreeAddDetach ''/repo/.stoneforge/.worktrees/_merge-feature-7'' ''origin/main'')
        (ExecOk [])]
   \<and> outcome_of (mergeBranch (scripted unrelated) preflight_options) () =
     Inr \<lparr>success = True, commitHash = Some ''abc123'', hasConflict = False, error = None,
          conflictFiles = None\<rparr>"
  using preflight_conflict_rejects_before_worktree
      [of "scripted conflicting" preflight_options "()"]
    preflight_conflict_rejects_before_worktree
      [of "scripted unrelated" preflight_options "()"]
  by (simp add: merge_defs run_simps preflight_options_def conflicting_def unrelated_def
      failure_def text_simps Let_def preflight_result_def)




lemma mergeBranch_split:
  "mergeBranch M options w =
     (case mergeBranch_before_sync M options w of
        (Inl e, w1, l1) \<Rightarrow> (Inl e, w1, l1)
      | (Inr (lo, t, returned, mr), w1, l1) \<Rightarrow>
          if returned then (Inr mr, w1, l1)
          else
            (case sync_step M (workspaceRoot options) t (flag_of (syncLocal options)) lo
                    (flag_of (autoPush options)) mr w1 of
               (Inl e, w2, l2) \<Rightarrow> (Inl e, w2, l1 @ l2)
             | (Inr u, w2, l2) \<Rightarrow> (Inr mr, w2, l1 @ l2)))"
  by (simp add: mergeBranch_def mergeBranch_before_sync_def bnd_apply ret_apply
      split: prod.splits sum.splits)

lemma sync_step_returns: "fst (sync_step M root t doSync lo doPush mr w) = Inr ()"
  using post_sync_step [of M root t doSync lo doPush mr]
  by (simp add: post_def sync_spec_def outcome_of_def)

lemma sync_inner_apply:
  "try_catch (bnd (execAsync M SymbolicRefShortHead root) (\<lambda>stdout. ret (Some (trim stdout))))
     (\<lambda>_. ret None) w =
     (Inr (current_branch (fst (exec M w root SymbolicRefShortHead))),
      snd (exec M w root SymbolicRefShortHead),
      [logged root SymbolicRefShortHead (fst (exec M w root SymbolicRefShortHead))])"
  by (cases "fst (exec M w root SymbolicRefShortHead)")
     (simp_all add: try_catch_apply bnd_execAsync_ret ret_apply current_branch_def)

lemma swallow_apply:
  "try_catch (bnd (execAsync M c root) (\<lambda>_. ret ())) (\<lambda>_. ret ()) w =
     (Inr (), snd (exec M w root c), [logged root c (fst (exec M w root c))])"
  by (cases "fst (exec M w root c)")
     (simp_all add: try_catch_apply bnd_execAsync_ret ret_apply)

lemma calls_swallow: "calls_of (try_catch m (\<lambda>_. ret ())) w = calls_of m w"
  by (cases "m w"; cases "fst (m w)") (auto simp: calls_of_def try_catch_apply ret_apply)

lemma calls_bnd:
  "calls_of (bnd m f) w =
     calls_of m w
     @ (case outcome_of m w of Inl e \<Rightarrow> [] | Inr a \<Rightarrow> calls_of (f a) (world_after m w))"
  by (cases "m w"; cases "fst (m w)")
     (auto simp: calls_of_def outcome_of_def world_after_def bnd_apply split: prod.splits)

lemma sync_inner_parts:
  "calls_of (try_catch (bnd (execAsync M SymbolicRefShortHead root)
                          (\<lambda>stdout. ret (Some (trim stdout)))) (\<lambda>_. ret None)) w
     = [logged root SymbolicRefShortHead (fst (exec M w root SymbolicRefShortHead))]"
  "outcome_of (try_catch (bnd (execAsync M SymbolicRefShortHead root)
                          (\<lambda>stdout. ret (Some (trim stdout)))) (\<lambda>_. ret None)) w
     = Inr (current_branch (fst (exec M w root SymbolicRefShortHead)))"
  "world_after (try_catch (bnd (execAsync M SymbolicRefShortHead root)
                          (\<lambda>stdout. ret (Some (trim stdout)))) (\<lambda>_. ret None)) w
     = snd (exec M w root SymbolicRefShortHead)"
  by (simp_all add: calls_of_def outcome_of_def world_after_def sync_inner_apply)

lemma calls_exec_ret:
  "calls_of (bnd (execAsync M c root) (\<lambda>_. ret ())) w = [logged root c (fst (exec M w root c))]"
  by (simp add: calls_of_def bnd_execAsync_ret)

lemma calls_ret: "calls_of (ret a) w = []"
  by (simp add: calls_of_def ret_apply)

lemma syncLocalBranchFromCommit_calls:
  "calls_of (syncLocalBranchFromCommit M root target hash) w =
     (let res = fst (exec M w root SymbolicRefShortHead);
          w1 = snd (exec M w root SymbolicRefShortHead);
          c = (if current_branch res = Some target then MergeFFOnly hash
               else BranchForce target hash)
      in [logged root SymbolicRefShortHead res, logged root c (fst (exec M w1 root c))])"
  unfolding syncLocalBranchFromCommit_def calls_swallow calls_bnd sync_inner_parts
  by (simp add: Let_def calls_exec_ret)

lemma syncLocalBranch_calls:
  "calls_of (syncLocalBranch M root target) w =
     (let res = fst (exec M w root SymbolicRefShortHead);
          w1 = snd (exec M w root SymbolicRefShortHead);
          c = (if current_branch res = Some target then MergeFFOnly (''origin/'' @ target)
               else FetchOriginRef target)
      in if current_branch res = None \<or> current_branch res = Some []
         then [logged root SymbolicRefShortHead res]
         else [logged root SymbolicRefShortHead res, logged root c (fst (exec M w1 root c))])"
  unfolding syncLocalBranch_def calls_swallow calls_bnd sync_inner_parts
  by (simp add: Let_def calls_exec_ret calls_ret)

lemma steps_success:
  assumes "merge_steps_1_to_7 M options lo t w = (Inr (returned, mr), w1, l1)" "success mr"
  shows "\<not> returned \<and> (\<exists>hash. commitHash mr = Some hash)"
proof -
  have "steps_spec (workspaceRoot options) lo (Inr (returned, mr)) l1"
    using post_steps assms(1) by (rule postD)
  then have "steps_shape (workspaceRoot options) (Inr (returned, mr)) l1"
    by (rule steps_flat)
  then show ?thesis
  proof (cases rule: steps_shape.cases)
    case (rejected fetch res a b out base)
    then obtain out' where "mr = preflight_result out'"
      using preflight_verdict_Some by blast
    then show ?thesis using assms(2) by (simp add: preflight_result_def Let_def)
  next
    case (merge_attempted fetch pre dir clean l1 ref out res)
    then show ?thesis using assms(2) by auto
  qed
qed

lemma before_sync_success:
  assumes "mergeBranch_before_sync M options w = (Inr (lo, t, returned, mr), w1, l1)"
    "success mr"
  shows "\<not> returned \<and> (\<exists>hash. commitHash mr = Some hash)"
  using assms steps_success [of M options lo t _ returned mr]
  by (auto simp: mergeBranch_before_sync_def bnd_apply ret_apply
      split: prod.splits sum.splits)

lemma sync_step_calls:
  assumes "success mr" "commitHash mr = Some hash"
  shows "calls_of (sync_step M root target True lo doPush mr) w =
           sync_as_designed M root target lo doPush hash w"
  using assms
  by (simp add: sync_step_def sync_as_designed_def syncLocalBranchFromCommit_calls
      syncLocalBranch_calls calls_ret Let_def)

text \<open>
  C7 (as amended). The sync never changes what \<open>mergeBranch\<close> returns: the outcome is the
  one reached before step 8. After a successful merge with \<open>syncLocal\<close> enabled the commands
  of step 8 are those of \<open>sync_as_designed\<close>: in local-only mode, and with a remote only
  when \<open>autoPush\<close> is enabled and \<open>HEAD\<close> is on a branch, a fast-forward-only merge in place
  when the workspace is on the target branch and an update of the branch ref otherwise;
  with a remote and \<open>autoPush\<close> disabled, or with a detached \<open>HEAD\<close> in remote mode, no
  branch is updated. Only the in-place merge changes the checkout.
\<close>

theorem local_sync_after_merge:
  "outcome_of (mergeBranch M options) w =
     map_sum id (\<lambda>(lo, target, returned, mr). mr)
       (outcome_of (mergeBranch_before_sync M options) w)
   \<and> (\<forall>lo target returned mr.
        outcome_of (mergeBranch_before_sync M options) w = Inr (lo, target, returned, mr)
          \<and> success mr \<and> flag_of (syncLocal options)
        \<longrightarrow> (\<exists>hash. commitHash mr = Some hash
               \<and> calls_of (mergeBranch M options) w =
                   calls_of (mergeBranch_before_sync M options) w
                   @ sync_as_designed M (workspaceRoot options) target lo
                       (flag_of (autoPush options)) hash
                       (world_after (mergeBranch_before_sync M options) w)))
   \<and> (\<forall>c \<in> set (sync_as_designed M root target lo doPush hash w').
        changes_checkout (cmd c)
        \<longrightarrow> current_branch (fst (exec M w' root SymbolicRefShortHead)) = Some target)"
proof (intro conjI allI impI ballI)
  obtain r0 w1 l1 where b: "mergeBranch_before_sync M options w = (r0, w1, l1)"
    by (cases "mergeBranch_before_sync M options w")
  show "outcome_of (mergeBranch M options) w =
     map_sum id (\<lambda>(lo, target, returned, mr). mr)
       (outcome_of (mergeBranch_before_sync M options) w)"
  proof (cases r0)
    case (Inl e)
    then show ?thesis using b by (simp add: outcome_of_def mergeBranch_split)
  next
    case (Inr a)
    obtain lo t returned mr where a: "a = (lo, t, returned, mr)" by (cases a)
    obtain r2 w2 l2 where s: "sync_step M (workspaceRoot options) t (flag_of (syncLocal options))
        lo (flag_of (autoPush options)) mr w1 = (r2, w2, l2)"
      by (cases "sync_step M (workspaceRoot options) t (flag_of (syncLocal options))
        lo (flag_of (autoPush options)) mr w1")
    have "r2 = Inr ()"
      using sync_step_returns [of M "workspaceRoot options" t "flag_of (syncLocal options)" lo
          "flag_of (autoPush options)" mr w1] s by simp
    then show ?thesis using b Inr a s by (simp add: outcome_of_def mergeBranch_split)
  qed
next
  fix lo target returned mr
  assume h: "outcome_of (mergeBranch_before_sync M options) w = Inr (lo, target, returned, mr)
      \<and> success mr \<and> flag_of (syncLocal options)"
  obtain w1 l1 where b: "mergeBranch_before_sync M options w = (Inr (lo, target, returned, mr), w1, l1)"
    using h by (cases "mergeBranch_before_sync M options w") (simp add: outcome_of_def)
  from before_sync_success [OF b] h obtain hash where
    hash: "\<not> returned" "commitHash mr = Some hash" by blast
  obtain r2 w2 l2 where s: "sync_step M (workspaceRoot options) target True
        lo (flag_of (autoPush options)) mr w1 = (r2, w2, l2)"
    by (cases "sync_step M (workspaceRoot options) target True
        lo (flag_of (autoPush options)) mr w1")
  have l2: "l2 = sync_as_designed M (workspaceRoot options) target lo
      (flag_of (autoPush options)) hash w1"
    using sync_step_calls [of mr hash M "workspaceRoot options" target lo
        "flag_of (autoPush options)" w1] h hash(2) s
    by (simp add: calls_of_def)
  have "calls_of (mergeBranch M options) w = l1 @ l2"
    using b h hash(1) s by (simp add: calls_of_def mergeBranch_split split: sum.splits)
  then have "calls_of (mergeBranch M options) w =
      calls_of (mergeBranch_before_sync M options) w
      @ sync_as_designed M (workspaceRoot options) target lo (flag_of (autoPush options)) hash
          (world_after (mergeBranch_before_sync M options) w)"
    using b l2 by (simp add: calls_of_def world_after_def)
  with hash(2) show "\<exists>hash. commitHash mr = Some hash
      \<and> calls_of (mergeBranch M options) w =
          calls_of (mergeBranch_before_sync M options) w
          @ sync_as_designed M (workspaceRoot options) target lo (flag_of (autoPush options))
              hash (world_after (mergeBranch_before_sync M options) w)"
    by blast
next
  fix c
  assume "c \<in> set (sync_as_designed M root target lo doPush hash w')"
    "changes_checkout (cmd c)"
  then show "current_branch (fst (exec M w' root SymbolicRefShortHead)) = Some target"
    by (auto simp: sync_as_designed_def Let_def changes_checkout_def split: if_splits)
qed



theorem local_sync_after_merge_witness:
  "outcome_of (mergeBranch (scripted on_main) plain_options) () =
     Inr \<lparr>success = True, commitHash = Some ''abc123'', hasConflict = False, error = None,
          conflictFiles = None\<rparr>
   \<and> calls_of (mergeBranch (scripted on_main) plain_options) () =
     calls_of (mergeBranch_before_sync (scripted on_main) plain_options) ()
     @ [logged ''/repo'' SymbolicRefShortHead (ExecOk ''main''),
        logged ''/repo'' (MergeFFOnly ''origin/main'') (ExecOk [])]
   \<and> outcome_of (mergeBranch (scripted on_feature) plain_options) () =
     Inr \<lparr>success = True, commitHash = Some ''abc123'', hasConflict = False, error = None,
          conflictFiles = None\<rparr>
   \<and> calls_of (mergeBranch (scripted on_feature) plain_options) () =
     calls_of (mergeBranch_before_sync (scripted on_feature) plain_options) ()
     @ [logged ''/repo'' SymbolicRefShortHead (ExecOk ''work''),
        logged ''/repo'' (FetchOriginRef ''main'') (failure ''non-ff'')]"
  using local_sync_after_merge
      [where M = "scripted on_main" and options = plain_options and w = "()"
         and root = "''/repo''" and target = "''main''" and lo = False and doPush = True
         and hash = "''abc123''" and w' = "()"]
    local_sync_after_merge
      [where M = "scripted on_feature" and options = plain_options and w = "()"
         and root = "''/repo''" and target = "''main''" and lo = False and doPush = True
         and hash = "''abc123''" and w' = "()"]
  by (simp add: mergeBranch_before_sync_def merge_defs run_simps plain_options_def on_main_def
      on_feature_def failure_def text_simps Let_def)

text \<open>
  The claim as stated fails. With a remote and \<open>autoPush\<close> disabled a successful merge with
  \<open>syncLocal\<close> enabled ends with the removal of the worktree: no sync command runs, although
  the workspace is on the target branch. And with a detached \<open>HEAD\<close> in remote mode the
  last command is the query for the current branch: no branch is updated.
\<close>

theorem local_sync_skipped_counterexample:
  "outcome_of (mergeBranch (scripted on_main) no_push_options) () =
     Inr \<lparr>success = True, commitHash = Some ''abc123'', hasConflict = False, error = None,
          conflictFiles = None\<rparr>
   \<and> flag_of (syncLocal no_push_options)
   \<and> current_branch (on_main SymbolicRefShortHead) = Some ''main''
   \<and> calls_of (mergeBranch (scripted on_main) no_push_options) () =
     [logged ''/repo'' FetchOrigin (ExecOk []),
      logged ''/repo''
        (WorktreeAddDetach ''/repo/.stoneforge/.worktrees/_merge-feature-7'' ''origin/main'')
        (ExecOk []),
      \<lparr>cwd = ''/repo/.stoneforge/.worktrees/_merge-feature-7'', cmd = MergeSquash ''feature'',
       via_safe = True, result = ExecOk []\<rparr>,
      \<lparr>cwd = ''/repo/.stoneforge/.worktrees/_merge-feature-7'', cmd = Commit ''msg'',
       via_safe = True, result = ExecOk []\<rparr>,
      \<lparr>cwd = ''/repo/.stoneforge/.worktrees/_merge-feature-7'', cmd = RevParseHead,
       via_safe = True, result = ExecOk ''abc123''\<rparr>,
      logged ''/repo'' (WorktreeRemoveForce ''/repo/.stoneforge/.worktrees/_merge-feature-7'')
        (ExecOk [])]
   \<and> outcome_of (mergeBranch (scripted detached_head) plain_options) () =
     Inr \<lparr>success = True, commitHash = Some ''abc123'', hasConflict = False, error = None,
          conflictFiles = None\<rparr>
   \<and> flag_of (syncLocal plain_options)
   \<and> last (calls_of (mergeBranch (scripted detached_head) plain_options) ()) =
     logged ''/repo'' SymbolicRefShortHead (failure ''detached'')"
  by (simp add: merge_defs run_simps plain_options_def no_push_options_def on_main_def
      detached_head_def failure_def text_simps Let_def current_branch_def)

lemma before_sync_contained:
  "calls_sat (\<lambda>c. placed M (workspaceRoot options) c
                \<and> (changes_checkout (cmd c) \<longrightarrow> worktree_command (cmd c)))
     (mergeBranch_before_sync M options)"
  unfolding mergeBranch_before_sync_def merge_defs Let_def
  by (intro calls_sat_intros allI impI;
      simp add: placed_def worktree_command_def changes_checkout_def)

lemma sync_only_on_target:
  assumes "c \<in> set (sync_as_designed M root target lo doPush hash w)"
    "changes_checkout (cmd c)"
  shows "(lo \<or> doPush)
     \<and> current_branch (fst (exec M w root SymbolicRefShortHead)) = Some target
     \<and> sync_as_designed M root target lo doPush hash w =
         [logged root SymbolicRefShortHead (fst (exec M w root SymbolicRefShortHead)), c]
     \<and> cmd c = MergeFFOnly (if lo then hash else ''origin/'' @ target)"
  using assms
  by (auto simp: sync_as_designed_def Let_def changes_checkout_def split: if_splits)

lemma sync_step_skipped:
  "\<not> (success mr \<and> doSync) \<Longrightarrow> calls_of (sync_step M root target doSync lo doPush mr) w = []"
  by (auto simp: sync_step_def calls_ret)

lemma root_change_is_sync:
  assumes c: "c \<in> set (calls_of (mergeBranch M options) w)"
    and ch: "changes_checkout (cmd c)"
    and pr: "path_resolve M (cwd c) = path_resolve M (workspaceRoot options)"
  shows "\<exists>lo target mr hash res.
      outcome_of (mergeBranch_before_sync M options) w = Inr (lo, target, False, mr)
      \<and> success mr \<and> commitHash mr = Some hash \<and> flag_of (syncLocal options)
      \<and> (lo \<or> flag_of (autoPush options))
      \<and> current_branch res = Some target
      \<and> calls_of (mergeBranch M options) w =
          calls_of (mergeBranch_before_sync M options) w
          @ [logged (workspaceRoot options) SymbolicRefShortHead res, c]
      \<and> cmd c = MergeFFOnly (if lo then hash else ''origin/'' @ target)"
proof -
  obtain r0 w1 l1 where b: "mergeBranch_before_sync M options w = (r0, w1, l1)"
    by (cases "mergeBranch_before_sync M options w")
  have "\<forall>d \<in> set l1. placed M (workspaceRoot options) d
          \<and> (changes_checkout (cmd d) \<longrightarrow> worktree_command (cmd d))"
    using before_sync_contained [of M options, unfolded calls_sat_def] b by (rule postD)
  then have notin: "c \<notin> set l1" using ch pr by (auto simp: placed_def)
  show ?thesis
  proof (cases r0)
    case (Inl e)
    then have "calls_of (mergeBranch M options) w = l1"
      using b by (simp add: calls_of_def mergeBranch_split)
    then show ?thesis using c notin by simp
  next
    case (Inr a)
    obtain lo t returned mr where a: "a = (lo, t, returned, mr)" by (cases a)
    show ?thesis
    proof (cases returned)
      case True
      then have "calls_of (mergeBranch M options) w = l1"
        using b Inr a by (simp add: calls_of_def mergeBranch_split)
      then show ?thesis using c notin by simp
    next
      case False
      define l2 where "l2 = calls_of (sync_step M (workspaceRoot options) t
          (flag_of (syncLocal options)) lo (flag_of (autoPush options)) mr) w1"
      have calls: "calls_of (mergeBranch M options) w = l1 @ l2"
        using b Inr a False
        by (simp add: calls_of_def mergeBranch_split l2_def split: prod.splits sum.splits)
      then have in2: "c \<in> set l2" using c notin by simp
      have on: "success mr \<and> flag_of (syncLocal options)"
      proof (rule ccontr)
        assume "\<not> (success mr \<and> flag_of (syncLocal options))"
        then have "l2 = []" unfolding l2_def by (rule sync_step_skipped)
        then show False using in2 by simp
      qed
      from before_sync_success [OF b [unfolded Inr a]] on obtain hash where
        hash: "commitHash mr = Some hash" by blast
      have l2: "l2 = sync_as_designed M (workspaceRoot options) t lo
          (flag_of (autoPush options)) hash w1"
        using sync_step_calls [of mr hash M "workspaceRoot options" t lo
            "flag_of (autoPush options)" w1] on hash
        by (simp add: l2_def)
      note s = sync_only_on_target [OF in2 [unfolded l2] ch]
      have "outcome_of (mergeBranch_before_sync M options) w = Inr (lo, t, False, mr)"
        using b Inr a False by (simp add: outcome_of_def)
      moreover have "calls_of (mergeBranch M options) w =
          calls_of (mergeBranch_before_sync M options) w
          @ [logged (workspaceRoot options) SymbolicRefShortHead
               (fst (exec M w1 (workspaceRoot options) SymbolicRefShortHead)), c]"
        using calls l2 s b by (simp add: calls_of_def)
      ultimately show ?thesis using on hash s by blast
    qed
  qed
qed

text \<open>
  C1 (as amended). Every merge-phase command of \<open>mergeBranch\<close> (merge, commit, rev-parse of
  the new commit, push, reset or abort) goes through \<open>execGitSafe\<close> and runs in a directory
  that does not resolve to the workspace root, and \<open>execGitSafe\<close> throws, running nothing,
  when the two paths resolve to the same directory. Every other command runs unguarded in
  the workspace root. A command that changes the checkout runs in the workspace root only
  as the fast-forward merge of the local sync (step 8): it is then the last command of the
  call, directly after the query for the current branch; the merge has succeeded with a
  commit hash, \<open>syncLocal\<close> is enabled, the call is local-only or \<open>autoPush\<close> is enabled, and
  the workspace is checked out on the target branch.
\<close>

theorem mergeBranch_worktree_isolation:
  "(\<forall>c \<in> set (calls_of (mergeBranch M options) w).
      (worktree_command (cmd c) \<longrightarrow>
         via_safe c \<and> path_resolve M (cwd c) \<noteq> path_resolve M (workspaceRoot options))
      \<and> (\<not> worktree_command (cmd c) \<longrightarrow> \<not> via_safe c \<and> cwd c = workspaceRoot options)
      \<and> (changes_checkout (cmd c)
           \<and> path_resolve M (cwd c) = path_resolve M (workspaceRoot options)
         \<longrightarrow> (\<exists>lo target mr hash res.
                outcome_of (mergeBranch_before_sync M options) w = Inr (lo, target, False, mr)
                \<and> success mr \<and> commitHash mr = Some hash \<and> flag_of (syncLocal options)
                \<and> (lo \<or> flag_of (autoPush options))
                \<and> current_branch res = Some target
                \<and> calls_of (mergeBranch M options) w =
                    calls_of (mergeBranch_before_sync M options) w
                    @ [logged (workspaceRoot options) SymbolicRefShortHead res, c]
                \<and> cmd c = MergeFFOnly (if lo then hash else ''origin/'' @ target))))
   \<and> (path_resolve M worktreePath = path_resolve M root \<longrightarrow>
        execGitSafe M command worktreePath root w = (Inl (safety_error command), w, []))"
proof (intro conjI ballI impI)
  fix c assume c: "c \<in> set (calls_of (mergeBranch M options) w)"
  have p: "placed M (workspaceRoot options) c"
    using mergeBranch_placed [of M options] c by (simp add: calls_sat_def post_def)
  show "worktree_command (cmd c) \<Longrightarrow> via_safe c"
    and "worktree_command (cmd c) \<Longrightarrow>
         path_resolve M (cwd c) \<noteq> path_resolve M (workspaceRoot options)"
    and "\<not> worktree_command (cmd c) \<Longrightarrow> \<not> via_safe c"
    and "\<not> worktree_command (cmd c) \<Longrightarrow> cwd c = workspaceRoot options"
    using p by (simp_all add: placed_def)
  assume "changes_checkout (cmd c)
      \<and> path_resolve M (cwd c) = path_resolve M (workspaceRoot options)"
  then show "\<exists>lo target mr hash res.
      outcome_of (mergeBranch_before_sync M options) w = Inr (lo, target, False, mr)
      \<and> success mr \<and> commitHash mr = Some hash \<and> flag_of (syncLocal options)
      \<and> (lo \<or> flag_of (autoPush options))
      \<and> current_branch res = Some target
      \<and> calls_of (mergeBranch M options) w =
          calls_of (mergeBranch_before_sync M options) w
          @ [logged (workspaceRoot options) SymbolicRefShortHead res, c]
      \<and> cmd c = MergeFFOnly (if lo then hash else ''origin/'' @ target)"
    using root_change_is_sync [OF c] by simp
next
  assume "path_resolve M worktreePath = path_resolve M root"
  then show "execGitSafe M command worktreePath root w = (Inl (safety_error command), w, [])"
    by (simp add: execGitSafe_def throw_def)
qed

theorem mergeBranch_worktree_isolation_witness:
  "calls_of (mergeBranch (scripted on_main) plain_options) () ! 3 =
     \<lparr>cwd = ''/repo/.stoneforge/.worktrees/_merge-feature-7'', cmd = Commit ''msg'',
      via_safe = True, result = ExecOk []\<rparr>
   \<and> calls_of (mergeBranch (scripted on_main) plain_options) () ! 6 =
     \<lparr>cwd = ''/repo'',
      cmd = WorktreeRemoveForce ''/repo/.stoneforge/.worktrees/_merge-feature-7'',
      via_safe = False, result = ExecOk []\<rparr>
   \<and> drop 7 (calls_of (mergeBranch (scripted on_main) plain_options) ()) =
     [logged ''/repo'' SymbolicRefShortHead (ExecOk ''main''),
      logged ''/repo'' (MergeFFOnly ''origin/main'') (ExecOk [])]
   \<and> outcome_of (mergeBranch_before_sync (scripted on_main) plain_options) () =
     Inr (False, ''main'', False,
          \<lparr>success = True, commitHash = Some ''abc123'', hasConflict = False, error = None,
           conflictFiles = None\<rparr>)
   \<and> last (calls_of (mergeBranch (scripted commit_fails) plain_options) ()) =
     logged ''/repo''
       (WorktreeRemoveForce ''/repo/.stoneforge/.worktrees/_merge-feature-7'') (ExecOk [])
   \<and> last (calls_of (mergeBranch (scripted on_main) preflight_options) ()) =
     logged ''/repo''
       (WorktreeRemoveForce ''/repo/.stoneforge/.worktrees/_merge-feature-7'') (ExecOk [])
   \<and> execGitSafe (scripted on_main) (Commit ''msg'') ''/repo'' ''/repo'' ()
       = (Inl (safety_error (Commit ''msg'')), (), [])"
  using mergeBranch_worktree_isolation
    [of "scripted on_main" plain_options "()" "''/repo''" "''/repo''" "Commit ''msg''"]
  by (simp add: mergeBranch_before_sync_def merge_defs run_simps plain_options_def
      preflight_options_def on_main_def commit_fails_def failure_def text_simps Let_def
      output_of_def)

text \<open>
  The claim as stated fails: with the default options, in a workspace checked out on the
  target branch, the last command of a successful merge is \<open>git merge --ff-only\<close> run in
  the workspace root without the guard, which moves the main checkout.
\<close>

theorem mergeBranch_mutates_main_checkout_counterexample:
  "last (calls_of (mergeBranch (scripted on_main) plain_options) ()) =
     \<lparr>cwd = ''/repo'', cmd = MergeFFOnly ''origin/main'', via_safe = False, result = ExecOk []\<rparr>
   \<and> changes_checkout (MergeFFOnly ''origin/main'')
   \<and> path_resolve (scripted on_main) ''/repo''
       = path_resolve (scripted on_main) (workspaceRoot plain_options)
   \<and> outcome_of (mergeBranch (scripted on_main) plain_options) () =
       Inr \<lparr>success = True, commitHash = Some ''abc123'', hasConflict = False, error = None,
            conflictFiles = None\<rparr>"
  by (simp add: merge_defs run_simps plain_options_def on_main_def text_simps Let_def
      changes_checkout_def)

end
